theory Spec2Isabelle
  imports Complex_Main "HOL-Library.Char_ord" "HOL-Library.List_Lexorder"
begin

chapter \<open>The model\<close>

section \<open>JavaScript values\<close>

text \<open>
  The gateway computes with JavaScript numbers. Amounts and rates are modelled as exact
  reals; a number that JavaScript reads as \<open>NaN\<close> is \<open>None\<close>. The concrete values
  evaluated in this development (100, 1, 6, 0.06, amounts with a few decimals) are
  computed by the source with the same results. Request parameters are strings; the empty
  string stands for a parameter that is absent or empty (both are falsy in the source).
\<close>

type_synonym jsnum = "real option"
type_synonym jsint = "int option"

definition truthy :: "string \<Rightarrow> bool" where
  "truthy s = (s \<noteq> '''')"


text \<open>
  \<open>parseInt(s)\<close> with no radix: leading white space is skipped, an optional sign is
  read, a \<open>0x\<close> prefix selects base 16, and the longest prefix of digits is the value;
  no digit at all gives \<open>NaN\<close>.
\<close>

definition isWhiteSpace :: "char \<Rightarrow> bool" where
  "isWhiteSpace c = (c \<in> set [CHR '' '', CHR 0x09, CHR 0x0A, CHR 0x0B, CHR 0x0C, CHR 0x0D])"

definition digitValue :: "char \<Rightarrow> nat option" where
  "digitValue c =
     map_of [(CHR ''0'', 0), (CHR ''1'', 1), (CHR ''2'', 2), (CHR ''3'', 3), (CHR ''4'', 4),
             (CHR ''5'', 5), (CHR ''6'', 6), (CHR ''7'', 7), (CHR ''8'', 8), (CHR ''9'', 9),
             (CHR ''a'', 10), (CHR ''b'', 11), (CHR ''c'', 12), (CHR ''d'', 13),
             (CHR ''e'', 14), (CHR ''f'', 15),
             (CHR ''A'', 10), (CHR ''B'', 11), (CHR ''C'', 12), (CHR ''D'', 13),
             (CHR ''E'', 14), (CHR ''F'', 15)] c"

definition isDigitIn :: "nat \<Rightarrow> char \<Rightarrow> bool" where
  "isDigitIn radix c = (case digitValue c of None \<Rightarrow> False | Some d \<Rightarrow> d < radix)"

definition digitsValue :: "nat \<Rightarrow> string \<Rightarrow> nat" where
  "digitsValue radix ds =
     foldl (\<lambda>acc c. acc * radix + (case digitValue c of None \<Rightarrow> 0 | Some d \<Rightarrow> d)) 0 ds"

definition parseDigits :: "nat \<Rightarrow> string \<Rightarrow> nat option" where
  "parseDigits radix s =
     (let z = takeWhile (isDigitIn radix) s
      in if z = [] then None else Some (digitsValue radix z))"

definition parseUnsigned :: "string \<Rightarrow> nat option" where
  "parseUnsigned s =
     (if take 2 s = ''0x'' \<or> take 2 s = ''0X'' then parseDigits 16 (drop 2 s)
      else parseDigits 10 s)"

definition parseInt :: "string \<Rightarrow> jsint" where
  "parseInt str =
     (let s = dropWhile isWhiteSpace str
      in case s of
           [] \<Rightarrow> None
         | c # rest \<Rightarrow>
             if c = CHR ''-'' then map_option (\<lambda>n. - int n) (parseUnsigned rest)
             else if c = CHR ''+'' then map_option int (parseUnsigned rest)
             else map_option int (parseUnsigned s))"

text \<open>
  \<open>parseFloat(x.toFixed(2))\<close>: the nearest number with two decimals, a tie going to the
  larger magnitude.
\<close>

definition toFixed2 :: "real \<Rightarrow> real" where
  "toFixed2 x =
     (if x < 0 then - (real_of_int \<lfloor>(- x) * 100 + 1 / 2\<rfloor> / 100)
      else real_of_int \<lfloor>x * 100 + 1 / 2\<rfloor> / 100)"

section \<open>Signature Codec\<close>

text \<open>
  A parameter object is the list of its entries in property order; its keys are unique.
  \<open>paramValue params k\<close> is \<open>params[k]\<close> interpolated in a template string, so an
  absent property reads \<open>undefined\<close>.
\<close>

type_synonym params = "(string \<times> string) list"

definition paramValue :: "params \<Rightarrow> string \<Rightarrow> string" where
  "paramValue ps k = (case map_of ps k of Some v \<Rightarrow> v | None \<Rightarrow> ''undefined'')"





section \<open>Fee Resolver\<close>

text \<open>
  \<^verbatim>\<open>function normalizeRateToDecimal(rate) {
    const value = parseFloat(rate);
    if (isNaN(value)) return 0;
    return value >= 1 ? value / 100 : value; }\<close>

  The argument of the model is the outcome of \<open>parseFloat(rate)\<close>; the result is a
  number, which \<open>parseFloat\<close> reads back unchanged.
\<close>

definition normalizeRateToDecimal :: "jsnum \<Rightarrow> real" where
  "normalizeRateToDecimal rate =
     (case rate of
        None \<Rightarrow> 0
      | Some v \<Rightarrow> if v \<ge> 1 then v / 100 else v)"

text \<open>
  The fee computation written out in \<open>createOrder\<close> and again in \<open>/dopay\<close>:

  \<^verbatim>\<open>const feeMoney = feeRate ? parseFloat((moneyFloat * feeRate).toFixed(2)) : 0;
  const realMoney = feePayer === 'buyer'
    ? parseFloat((moneyFloat + feeMoney).toFixed(2)) : moneyFloat;\<close>

  A rate that is \<open>undefined\<close>, \<open>NaN\<close> or 0 is falsy.
\<close>

definition feeMoneyOf :: "real \<Rightarrow> jsnum \<Rightarrow> real" where
  "feeMoneyOf moneyFloat feeRate =
     (case feeRate of
        None \<Rightarrow> 0
      | Some r \<Rightarrow> if r = 0 then 0 else toFixed2 (moneyFloat * r))"

definition realMoneyOf :: "real \<Rightarrow> real \<Rightarrow> string \<Rightarrow> real" where
  "realMoneyOf moneyFloat feeMoney feePayer =
     (if feePayer = ''buyer'' then toFixed2 (moneyFloat + feeMoney) else moneyFloat)"

section \<open>Persisted state\<close>

text \<open>
  The relational rows the engine reads and writes. A table is the list of its rows in the
  order the database returns them when a query has no \<open>ORDER BY\<close>. A nullable column
  is an \<open>option\<close>. Times are seconds.
\<close>

record cert_info =
  cert_no :: "string option"
  cert_name :: "string option"
  min_age :: "int option"

record order =
  o_id :: nat
  merchant_id :: nat
  channel_id :: "nat option"
  trade_no :: string
  out_trade_no :: string
  pay_type :: string
  plugin_name :: "string option"
  name :: string
  money :: real
  real_money :: real
  fee_money :: real
  fee_payer :: string
  client_ip :: string
  notify_url :: string
  return_url :: string
  status :: nat
  order_type :: string
  crypto_pid :: "string option"
  cert_info :: "cert_info option"
  param :: "params option"
  api_trade_no :: "string option"
  buyer :: "string option"
  paid_at :: "nat option"
  balance_added :: bool
  notify_status :: nat
  notify_count :: nat
  notify_time :: "nat option"
  created_at :: nat

text \<open>
  A merchant row. \<open>fee_rates\<close> is the per-pay-type rate map after \<open>JSON.parse\<close>
  (\<open>None\<close> when the column is null, empty or not valid JSON), each entry holding what
  \<open>parseFloat\<close> makes of the stored value.
\<close>

record merchant =
  user_id :: nat
  pid :: string
  api_key :: string
  rsa_public_key :: string
  fee_rate :: "real option"
  fee_rates :: "(string \<times> jsnum) list option"
  m_fee_payer :: string
  pay_group_id :: "nat option"
  balance :: real
  m_status :: string

text \<open>
  The part of a channel's \<open>config\<close> column that selection reads:
  \<open>JSON.parse(channel.config)\<close> may throw, otherwise \<open>config.params?.force_min_age\<close>
  is absent (\<open>None\<close>) or a value, kept as the string \<open>parseInt\<close> sees.
\<close>

datatype channel_config = ConfigInvalid | ConfigParams "string option"

record channel =
  ch_id :: nat
  channel_name :: string
  ch_plugin_name :: string
  ch_pay_type :: "string list"
  ch_status :: nat
  priority :: int
  min_money :: "real option"
  max_money :: "real option"
  is_deleted :: bool
  config :: channel_config

text \<open>
  A pay group's \<open>config\<close> maps a pay-type id to its settings; \<open>None\<close> is a null or
  unparsable column.
\<close>

record type_config =
  channel_mode :: "int option"
  group_id :: "nat option"
  rate :: "jsnum option"

record pay_group =
  pg_id :: nat
  is_default :: bool
  pg_config :: "(nat \<times> type_config) list option"

text \<open>A polling group (\<open>channel_groups\<close>); a member's \<open>weight\<close> 0 is an absent weight.\<close>

record group_member =
  gm_id :: nat
  weight :: real

record channel_group =
  cg_id :: nat
  cg_status :: nat
  cg_mode :: int
  cg_channels :: "group_member list option"

record db =
  orders :: "order list"
  merchants :: "merchant list"
  provider_channels :: "channel list"
  provider_pay_groups :: "pay_group list"
  channel_groups :: "channel_group list"

text \<open>\<open>rows[0]\<close> of a query result.\<close>

definition first :: "'a list \<Rightarrow> 'a option" where
  "first rows = (case rows of [] \<Rightarrow> None | r # _ \<Rightarrow> Some r)"

text \<open>A nullable id used as a condition: \<open>NULL\<close> and 0 are falsy.\<close>

definition truthyId :: "nat option \<Rightarrow> bool" where
  "truthyId i = (case i of None \<Rightarrow> False | Some n \<Rightarrow> n \<noteq> 0)"

section \<open>Pay types and lookups\<close>

text \<open>The static \<open>payTypes\<close> table: id, name, device, status.\<close>

record pay_type_info =
  pt_id :: nat
  pt_name :: string
  pt_device :: nat
  pt_status :: nat

definition payTypes :: "pay_type_info list" where
  "payTypes =
     [\<lparr>pt_id = 1, pt_name = ''alipay'', pt_device = 0, pt_status = 1\<rparr>,
      \<lparr>pt_id = 2, pt_name = ''wxpay'', pt_device = 0, pt_status = 1\<rparr>,
      \<lparr>pt_id = 3, pt_name = ''qqpay'', pt_device = 0, pt_status = 1\<rparr>,
      \<lparr>pt_id = 4, pt_name = ''bank'', pt_device = 0, pt_status = 1\<rparr>,
      \<lparr>pt_id = 5, pt_name = ''jdpay'', pt_device = 0, pt_status = 1\<rparr>,
      \<lparr>pt_id = 6, pt_name = ''paypal'', pt_device = 0, pt_status = 1\<rparr>,
      \<lparr>pt_id = 7, pt_name = ''ecny'', pt_device = 0, pt_status = 1\<rparr>]"

text \<open>\<open>getPayTypeByName(name)\<close> with the default device \<open>'pc'\<close> (device code 1).\<close>

definition getPayTypeByName :: "string \<Rightarrow> pay_type_info option" where
  "getPayTypeByName nm =
     find (\<lambda>pt. pt_name pt = nm \<and> pt_status pt = 1 \<and> (pt_device pt = 0 \<or> pt_device pt = 1))
          payTypes"



text \<open>
  The pay group used for a merchant or a dispatch: the given id if it is truthy and
  exists, else the group flagged default, else the group of least id.
\<close>

definition resolvePayGroup :: "db \<Rightarrow> nat option \<Rightarrow> pay_group option" where
  "resolvePayGroup d payGroupId =
     (let byId = (if truthyId payGroupId
                  then first (filter (\<lambda>g. Some (pg_id g) = payGroupId) (provider_pay_groups d))
                  else None)
      in case byId of
           Some g \<Rightarrow> Some g
         | None \<Rightarrow>
             (case first (filter is_default (provider_pay_groups d)) of
                Some g \<Rightarrow> Some g
              | None \<Rightarrow> first (sort_key pg_id (provider_pay_groups d))))"

text \<open>
  \<open>getMerchantFeeRate(merchant, payType)\<close>. The merchant object carries
  \<open>merchant_fee_rates\<close>, \<open>merchant_fee_rate\<close> and \<open>pay_group_id\<close>; the result is a
  number or \<open>NaN\<close>.
\<close>

definition getMerchantFeeRate ::
  "db \<Rightarrow> (string \<times> jsnum) list option \<Rightarrow> real option \<Rightarrow> nat option \<Rightarrow> string \<Rightarrow> jsnum" where
  "getMerchantFeeRate d merchant_fee_rates merchant_fee_rate payGroupId payType =
     (case (case merchant_fee_rates of None \<Rightarrow> None | Some feeRates \<Rightarrow> map_of feeRates payType) of
        Some r \<Rightarrow> Some (normalizeRateToDecimal r)
      | None \<Rightarrow>
         (case merchant_fee_rate of
            Some r \<Rightarrow> Some (normalizeRateToDecimal (Some r))
          | None \<Rightarrow>
             (case resolvePayGroup d payGroupId of
                None \<Rightarrow> Some 0
              | Some payGroup \<Rightarrow>
                 (case pg_config payGroup of
                    None \<Rightarrow> Some 0
                  | Some cfg \<Rightarrow>
                     (case getPayTypeByName payType of
                        None \<Rightarrow> Some 0
                      | Some payTypeInfo \<Rightarrow>
                         (case map_of cfg (pt_id payTypeInfo) of
                            None \<Rightarrow> Some 0
                          | Some typeConfig \<Rightarrow>
                             (case rate typeConfig of
                                None \<Rightarrow> Some 0
                              | Some r \<Rightarrow> map_option (\<lambda>v. v / 100) r)))))))"

section \<open>Order Lifecycle Manager\<close>

text \<open>The argument object of \<open>createOrder\<close> and its result.\<close>

record order_data =
  merchantId :: nat
  channelId :: "nat option"
  tradeNo :: string
  outTradeNo :: string
  payType :: string
  orderName :: string
  moneyFloat :: real
  clientIp :: string
  notifyUrl :: string
  returnUrl :: string
  feeRate :: jsnum
  feePayer :: string
  orderType :: string
  cryptoPid :: "string option"
  certInfo :: "cert_info option"

record create_result =
  orderId :: nat
  resTradeNo :: string
  isExisting :: bool

text \<open>
  \<^verbatim>\<open>SELECT * FROM orders WHERE merchant_id = ? AND out_trade_no = ? AND status = 0
  ORDER BY id DESC LIMIT 1\<close>
\<close>

definition pending :: "nat \<Rightarrow> string \<Rightarrow> order \<Rightarrow> bool" where
  "pending mid otn r = (merchant_id r = mid \<and> out_trade_no r = otn \<and> status r = 0)"

definition existingOrders :: "db \<Rightarrow> nat \<Rightarrow> string \<Rightarrow> order list" where
  "existingOrders d mid otn =
     take 1 (sort_key (\<lambda>r. - int (o_id r)) (filter (pending mid otn) (orders d)))"

text \<open>The id an \<open>INSERT\<close> into \<open>orders\<close> receives (auto-increment).\<close>

definition insertId :: "db \<Rightarrow> nat" where
  "insertId d = Suc (fold max (map o_id (orders d)) 0)"

text \<open>\<open>x || 'merchant'\<close>.\<close>

definition orMerchant :: "string \<Rightarrow> string" where
  "orMerchant p = (if truthy p then p else ''merchant'')"

text \<open>
  \<open>createOrder(data)\<close> at time \<open>now\<close>: a pending order of the same merchant and
  out-trade-no is updated in place
  (\<^verbatim>\<open>UPDATE orders SET channel_id = ?, pay_type = ?, notify_url = ?, return_url = ?,
  fee_money = ?, real_money = ?, fee_payer = ?, cert_info = ? WHERE id = ?\<close>);
  otherwise a row is inserted with \<open>status = 0\<close>.
\<close>

definition reusedOrder :: "order_data \<Rightarrow> real \<Rightarrow> real \<Rightarrow> order \<Rightarrow> order" where
  "reusedOrder data feeMoney realMoney r =
     r\<lparr>channel_id := channelId data, pay_type := payType data,
       notify_url := notifyUrl data, return_url := returnUrl data,
       fee_money := feeMoney, real_money := realMoney,
       fee_payer := orMerchant (feePayer data),
       cert_info := certInfo data\<rparr>"

definition insertedOrder :: "nat \<Rightarrow> db \<Rightarrow> order_data \<Rightarrow> real \<Rightarrow> real \<Rightarrow> order" where
  "insertedOrder now d data feeMoney realMoney =
     \<lparr>o_id = insertId d, merchant_id = merchantId data,
      channel_id = channelId data, trade_no = tradeNo data,
      out_trade_no = outTradeNo data, pay_type = payType data,
      plugin_name = None, name = orderName data, money = moneyFloat data,
      real_money = realMoney, fee_money = feeMoney,
      fee_payer = orMerchant (feePayer data), client_ip = clientIp data,
      notify_url = notifyUrl data, return_url = returnUrl data, status = 0,
      order_type = (if truthy (orderType data) then orderType data else ''normal''),
      crypto_pid = cryptoPid data, cert_info = certInfo data, param = None,
      api_trade_no = None, buyer = None, paid_at = None, balance_added = False,
      notify_status = 0, notify_count = 0, notify_time = None,
      created_at = now\<rparr>"

definition createOrder :: "nat \<Rightarrow> db \<Rightarrow> order_data \<Rightarrow> create_result \<times> db" where
  "createOrder now d data =
     (let feeMoney = feeMoneyOf (moneyFloat data) (feeRate data);
          realMoney = realMoneyOf (moneyFloat data) feeMoney (feePayer data)
      in case existingOrders d (merchantId data) (outTradeNo data) of
           existingOrder # _ \<Rightarrow>
             (\<lparr>orderId = o_id existingOrder, resTradeNo = trade_no existingOrder,
               isExisting = True\<rparr>,
              d\<lparr>orders :=
                  map (\<lambda>r. if o_id r = o_id existingOrder
                           then reusedOrder data feeMoney realMoney r else r)
                      (orders d)\<rparr>)
         | [] \<Rightarrow>
             (\<lparr>orderId = insertId d, resTradeNo = tradeNo data, isExisting = False\<rparr>,
              d\<lparr>orders := orders d @ [insertedOrder now d data feeMoney realMoney]\<rparr>))"

section \<open>Channel Selector\<close>

text \<open>
  The eligibility test \<open>selectChannelFromGroup\<close> applies to the members of a polling
  group:

  \<^verbatim>\<open>try {
    const config = typeof channel.config === 'string' ? JSON.parse(channel.config) : ...;
    const forceMinAge = config.params?.force_min_age;
    if (forceMinAge === null || forceMinAge === undefined || forceMinAge === '') return true;
    const channelMinAge = parseInt(forceMinAge);
    return !isNaN(channelMinAge) && channelMinAge <= merchantMinAge;
  } catch (e) { return true; }\<close>
\<close>

definition groupChannelEligible :: "int \<Rightarrow> channel \<Rightarrow> bool" where
  "groupChannelEligible merchantMinAge ch =
     (case config ch of
        ConfigInvalid \<Rightarrow> True
      | ConfigParams forceMinAge \<Rightarrow>
          (case forceMinAge of
             None \<Rightarrow> True
           | Some f \<Rightarrow>
               if f = '''' then True
               else (case parseInt f of
                       None \<Rightarrow> False
                     | Some channelMinAge \<Rightarrow> channelMinAge \<le> merchantMinAge)))"

text \<open>The test it applies, written out a second time, to the channels of a pay type.\<close>

definition channelEligible :: "int \<Rightarrow> channel \<Rightarrow> bool" where
  "channelEligible merchantMinAge ch =
     (case config ch of
        ConfigParams forceMinAge \<Rightarrow>
          (case forceMinAge of
             Some f \<Rightarrow>
               if f = '''' then True
               else (case parseInt f of
                       Some channelMinAge \<Rightarrow> channelMinAge \<le> merchantMinAge
                     | None \<Rightarrow> False)
           | None \<Rightarrow> True)
      | ConfigInvalid \<Rightarrow> True)"

text \<open>
  \<open>minAge\<close> is \<open>null\<close> (\<open>None\<close>) or a number, possibly \<open>NaN\<close>; the filter runs
  only for a number.
\<close>

definition eligibleChannels :: "jsint option \<Rightarrow> channel list \<Rightarrow> channel list" where
  "eligibleChannels minAge allGroupChannels =
     (case minAge of
        None \<Rightarrow> allGroupChannels
      | Some v \<Rightarrow>
          (case v of
             None \<Rightarrow> allGroupChannels
           | Some merchantMinAge \<Rightarrow> filter (groupChannelEligible merchantMinAge) allGroupChannels))"

definition filteredChannels :: "jsint option \<Rightarrow> channel list \<Rightarrow> channel list" where
  "filteredChannels minAge channels =
     (case minAge of
        None \<Rightarrow> channels
      | Some v \<Rightarrow>
          (case v of
             None \<Rightarrow> channels
           | Some merchantMinAge \<Rightarrow> filter (channelEligible merchantMinAge) channels))"

text \<open>\<open>xs[Math.floor(rnd * xs.length)]\<close>, \<open>undefined\<close> outside the array.\<close>

definition randomPick :: "real \<Rightarrow> 'a list \<Rightarrow> 'a option" where
  "randomPick rnd xs =
     (let i = \<lfloor>rnd * real (length xs)\<rfloor>
      in if 0 \<le> i \<and> nat i < length xs then Some (xs ! nat i) else None)"

text \<open>\<open>c.weight || 1\<close>.\<close>

definition weightOf :: "group_member \<Rightarrow> real" where
  "weightOf c = (if weight c = 0 then 1 else weight c)"

text \<open>
  \<^verbatim>\<open>for (const ch of filteredGroupChannels) {
    random -= (ch.weight || 1);
    if (random <= 0) { selectedId = ch.id; break; } }\<close>
\<close>

fun weightedPick :: "real \<Rightarrow> group_member list \<Rightarrow> nat option" where
  "weightedPick random [] = None"
| "weightedPick random (ch # rest) =
     (if random - weightOf ch \<le> 0 then Some (gm_id ch)
      else weightedPick (random - weightOf ch) rest)"

text \<open>
  The choice among the eligible members of a polling group, by the group's \<open>mode\<close>
  (2 first available, 1 weighted random, otherwise a random member). \<open>rnd\<close> is the
  value of \<open>Math.random()\<close>. \<open>None\<close> is an \<open>undefined\<close> \<open>selectedChannel\<close>.
\<close>

definition selectInGroup ::
  "channel_group \<Rightarrow> channel list \<Rightarrow> group_member list \<Rightarrow> real \<Rightarrow> channel option" where
  "selectInGroup grp elig filteredGroupChannels rnd =
     (if cg_mode grp = 2 then
        (case find (\<lambda>c. Some (ch_id c) = map_option gm_id (first filteredGroupChannels)) elig of
           Some c \<Rightarrow> Some c
         | None \<Rightarrow> first elig)
      else if cg_mode grp = 1 then
        (let totalWeight = sum_list (map weightOf filteredGroupChannels);
             picked = weightedPick (rnd * totalWeight) filteredGroupChannels;
             selectedId = (case picked of
                             Some i \<Rightarrow> if i \<noteq> 0 then Some i
                                       else map_option gm_id (first filteredGroupChannels)
                           | None \<Rightarrow> map_option gm_id (first filteredGroupChannels))
         in case selectedId of
              None \<Rightarrow> None
            | Some sid \<Rightarrow> find (\<lambda>c. ch_id c = sid) elig)
      else
        (case randomPick rnd filteredGroupChannels of
           None \<Rightarrow> None
         | Some randomCh \<Rightarrow> find (\<lambda>c. ch_id c = gm_id randomCh) elig))"

text \<open>
  Selection through the polling group \<open>gid\<close>:
  \<^verbatim>\<open>SELECT * FROM channel_groups WHERE id = ? AND status = 1\<close>, then
  \<^verbatim>\<open>SELECT ... FROM provider_channels WHERE id IN (?) AND status = 1\<close>, the age filter,
  and the choice. \<open>None\<close> means that the caller goes on with the channels of the pay
  type.
\<close>

definition pollingGroupChannel :: "db \<Rightarrow> nat \<Rightarrow> jsint option \<Rightarrow> real \<Rightarrow> channel option" where
  "pollingGroupChannel d gid minAge rnd =
     (case first (filter (\<lambda>g. cg_id g = gid \<and> cg_status g = 1) (channel_groups d)) of
        None \<Rightarrow> None
      | Some grp \<Rightarrow>
          (let groupChannels = (case cg_channels grp of None \<Rightarrow> [] | Some cs \<Rightarrow> cs)
           in if groupChannels = [] then None
              else
                (let channelIds = map gm_id groupChannels;
                     allGroupChannels =
                       filter (\<lambda>c. ch_id c \<in> set channelIds \<and> ch_status c = 1)
                              (provider_channels d);
                     elig = eligibleChannels minAge allGroupChannels
                 in if elig = [] then None
                    else
                      (let eligibleIds = set (map ch_id elig);
                           filteredGroupChannels =
                             filter (\<lambda>c. gm_id c \<in> eligibleIds) groupChannels
                       in selectInGroup grp elig filteredGroupChannels rnd))))"

text \<open>
  Selection among the channels of the pay type:
  \<^verbatim>\<open>SELECT ... FROM provider_channels WHERE FIND_IN_SET(?, pay_type) AND status = 1
  ORDER BY id\<close>, the age filter, and the choice by \<open>channel_mode\<close>.
\<close>

definition directChannel :: "db \<Rightarrow> string \<Rightarrow> int \<Rightarrow> jsint option \<Rightarrow> real \<Rightarrow> channel option" where
  "directChannel d ty mode minAge rnd =
     (let channels = sort_key ch_id
                       (filter (\<lambda>c. ty \<in> set (ch_pay_type c) \<and> ch_status c = 1)
                               (provider_channels d))
      in if channels = [] then None
         else
           (let fc = filteredChannels minAge channels
            in if fc = [] then None
               else if length fc = 1 then first fc
               else if mode > 0 then
                 (case find (\<lambda>c. int (ch_id c) = mode) fc of
                    Some specified \<Rightarrow> Some specified
                  | None \<Rightarrow> first fc)
               else if mode = - 5 then first fc
               else if mode = - 4 then randomPick rnd fc
               else randomPick rnd fc))"

text \<open>
  \<open>selectChannelFromGroup(payType, payGroupId, { minAge })\<close>; \<open>rnd1\<close> and \<open>rnd2\<close> are
  the values of \<open>Math.random()\<close> in the polling group and among the channels of the pay
  type.
\<close>

definition selectChannelFromGroup ::
  "db \<Rightarrow> string \<Rightarrow> nat option \<Rightarrow> jsint option \<Rightarrow> real \<Rightarrow> real \<Rightarrow> channel option" where
  "selectChannelFromGroup d ty payGroupId minAge rnd1 rnd2 =
     (let payGroup = resolvePayGroup d payGroupId;
          cfg = (case payGroup of None \<Rightarrow> None | Some g \<Rightarrow> pg_config g);
          typeConfig = (case getPayTypeByName ty of
                          None \<Rightarrow> None
                        | Some payTypeInfo \<Rightarrow>
                            (case cfg of None \<Rightarrow> None | Some c \<Rightarrow> map_of c (pt_id payTypeInfo)))
      in if (case typeConfig of None \<Rightarrow> False | Some tc \<Rightarrow> channel_mode tc = Some 0) then None
         else
           (let mode = (case typeConfig of
                          None \<Rightarrow> - 1
                        | Some tc \<Rightarrow> (case channel_mode tc of None \<Rightarrow> - 1 | Some m \<Rightarrow> m));
                viaGroup =
                  (case typeConfig of
                     None \<Rightarrow> None
                   | Some tc \<Rightarrow>
                       (case group_id tc of
                          None \<Rightarrow> None
                        | Some gid \<Rightarrow>
                            if mode = - 3 \<and> gid \<noteq> 0 then pollingGroupChannel d gid minAge rnd1
                            else None))
            in case viaGroup of
                 Some selectedChannel \<Rightarrow> Some selectedChannel
               | None \<Rightarrow> directChannel d ty mode minAge rnd2))"

section \<open>Dispatch: the channel lock\<close>

datatype dopay_error =
  TradeNoEmpty | OrderNotFound | OrderStatusInvalid | ChannelGone | PayTypeMissing
  | NoChannelAvailable

text \<open>\<open>SELECT * FROM orders WHERE trade_no = ?\<close>, first row.\<close>

definition orderByTradeNo :: "db \<Rightarrow> string \<Rightarrow> order option" where
  "orderByTradeNo d tn = first (filter (\<lambda>r. trade_no r = tn) (orders d))"

text \<open>
  The minimum age \<open>/dopay\<close> passes to selection:
  \<^verbatim>\<open>if (certInfo.min_age) { merchantMinAge = parseInt(certInfo.min_age); }\<close>
\<close>

definition merchantMinAgeOf :: "order \<Rightarrow> jsint option" where
  "merchantMinAgeOf ord =
     (case cert_info ord of
        None \<Rightarrow> None
      | Some ci \<Rightarrow>
          (case min_age ci of
             None \<Rightarrow> None
           | Some n \<Rightarrow> if n \<noteq> 0 then Some (Some n) else None))"

text \<open>
  The merchant \<open>/dopay\<close> reads for the fee,
  \<^verbatim>\<open>SELECT fee_rate as merchant_fee_rate, fee_payer, pay_group_id FROM merchants
  WHERE user_id = ?\<close> (\<open>merchants[0] || {}\<close>): the per-pay-type rates are not selected,
  so the rate is resolved from the uniform rate or the pay group.
\<close>

definition dopayMerchant :: "db \<Rightarrow> order \<Rightarrow> merchant option" where
  "dopayMerchant d ord = first (filter (\<lambda>m. user_id m = merchant_id ord) (merchants d))"

definition dopayFeeRate :: "db \<Rightarrow> order \<Rightarrow> string \<Rightarrow> jsnum" where
  "dopayFeeRate d ord finalPayType =
     getMerchantFeeRate d None
       (case dopayMerchant d ord of None \<Rightarrow> None | Some x \<Rightarrow> fee_rate x)
       (case dopayMerchant d ord of None \<Rightarrow> None | Some x \<Rightarrow> pay_group_id x)
       finalPayType"

definition dopayFeePayer :: "db \<Rightarrow> order \<Rightarrow> string" where
  "dopayFeePayer d ord =
     orMerchant (case dopayMerchant d ord of None \<Rightarrow> '''' | Some x \<Rightarrow> m_fee_payer x)"

text \<open>
  The row after
  \<^verbatim>\<open>UPDATE orders SET channel_id = ?, pay_type = ?, plugin_name = ?, fee_money = ?,
  real_money = ?, fee_payer = ? WHERE id = ?\<close>.
\<close>

definition lockedOrder :: "channel \<Rightarrow> string \<Rightarrow> real \<Rightarrow> real \<Rightarrow> string \<Rightarrow> order \<Rightarrow> order" where
  "lockedOrder channelConfig finalPayType feeMoney realMoney fp r =
     r\<lparr>channel_id := Some (ch_id channelConfig), pay_type := finalPayType,
       plugin_name := Some (ch_plugin_name channelConfig),
       fee_money := feeMoney, real_money := realMoney, fee_payer := fp\<rparr>"

text \<open>
  \<open>dopayState\<close> below is the database after the request, whether it was served or
  refused.

  \<open>POST /dopay\<close> with body \<open>{trade_no, pay_type, group_id}\<close>, up to the call of the
  channel's plugin (which writes no order column). An order that has a channel keeps it;
  otherwise a channel is selected and written with the fees
  (\<^verbatim>\<open>UPDATE orders SET channel_id = ?, pay_type = ?, plugin_name = ?, fee_money = ?,
  real_money = ?, fee_payer = ? WHERE id = ?\<close>).
  The result is the new state, the channel dispatched to and the pay type.
\<close>

definition dopay ::
  "db \<Rightarrow> string \<Rightarrow> string \<Rightarrow> nat option \<Rightarrow> real \<Rightarrow> real
     \<Rightarrow> dopay_error + (db \<times> channel \<times> string)" where
  "dopay d tn ptype gid rnd1 rnd2 =
     (if \<not> truthy tn then Inl TradeNoEmpty
      else case orderByTradeNo d tn of
        None \<Rightarrow> Inl OrderNotFound
      | Some ord \<Rightarrow>
          if status ord \<noteq> 0 then Inl OrderStatusInvalid
          else if truthyId (channel_id ord) then
            (case first (filter (\<lambda>c. Some (ch_id c) = channel_id ord) (provider_channels d)) of
               None \<Rightarrow> Inl ChannelGone
             | Some channelConfig \<Rightarrow> Inr (d, channelConfig, pay_type ord))
          else
            (let finalPayType = (if truthy ptype then ptype else pay_type ord)
             in if \<not> truthy finalPayType then Inl PayTypeMissing
                else
                  (case selectChannelFromGroup d finalPayType gid (merchantMinAgeOf ord)
                          rnd1 rnd2 of
                     None \<Rightarrow> Inl NoChannelAvailable
                   | Some channelConfig \<Rightarrow>
                       (let fr = dopayFeeRate d ord finalPayType;
                            fp = dopayFeePayer d ord;
                            feeMoney = feeMoneyOf (money ord) fr;
                            realMoney = realMoneyOf (money ord) feeMoney fp
                        in Inr (d\<lparr>orders :=
                                   map (\<lambda>r. if o_id r = o_id ord
                                            then lockedOrder channelConfig finalPayType
                                                   feeMoney realMoney fp r
                                            else r)
                                       (orders d)\<rparr>,
                                channelConfig, finalPayType)))))"

definition dopayState :: "db \<Rightarrow> string \<Rightarrow> string \<Rightarrow> nat option \<Rightarrow> real \<Rightarrow> real \<Rightarrow> db" where
  "dopayState d tn ptype gid rnd1 rnd2 =
     (case dopay d tn ptype gid rnd1 rnd2 of
        Inl err \<Rightarrow> d
      | Inr (d', channelConfig, finalPayType) \<Rightarrow> d')"


section \<open>Callback and Settlement Pipeline\<close>

text \<open>
  The plugin boundary. A channel's plugin verifies a callback and answers
  \<open>{success, api_trade_no, buyer, msg}\<close>; \<open>getPlugin\<close> is the plugin loader. Delivery
  to the merchant (\<open>sendNotify\<close>) is the other outside call: it is given the URL and
  the order and answers whether the merchant acknowledged.
\<close>

record plugin_result =
  success :: bool
  res_api_trade_no :: string
  res_buyer :: string
  msg :: string

record plugin =
  notify :: "(channel \<Rightarrow> params \<Rightarrow> order \<Rightarrow> plugin_result) option"
  returnCallback :: "(channel \<Rightarrow> params \<Rightarrow> order \<Rightarrow> plugin_result) option"
  getNotifyResponse :: "(bool \<Rightarrow> string) option"

record env =
  getPlugin :: "string \<Rightarrow> plugin option"
  sendNotify :: "string \<Rightarrow> order \<Rightarrow> bool"

text \<open>\<open>x || null\<close>.\<close>

definition orNull :: "string \<Rightarrow> string option" where
  "orNull x = (if truthy x then Some x else None)"

text \<open>
  The balance credit of \<open>sendDownstreamNotify\<close>, one database transaction:

  \<^verbatim>\<open>await connection.beginTransaction();
  const [orderCheck] = await connection.query(
    'SELECT balance_added FROM orders WHERE id = ? FOR UPDATE', [order.id]);
  if (orderCheck.length > 0 && !orderCheck[0].balance_added) {
    await connection.query(
      'UPDATE merchants SET balance = balance + ? WHERE user_id = ?',
      [settleAmount, order.merchant_id]);
    await connection.query('UPDATE orders SET balance_added = 1 WHERE id = ?', [order.id]);
  }
  await connection.commit();\<close>
\<close>

definition creditBalance :: "db \<Rightarrow> order \<Rightarrow> real \<Rightarrow> db" where
  "creditBalance d ord settleAmount =
     (case filter (\<lambda>r. o_id r = o_id ord) (orders d) of
        [] \<Rightarrow> d
      | orderCheck # _ \<Rightarrow>
          if \<not> balance_added orderCheck then
            d\<lparr>merchants :=
                 map (\<lambda>m. if user_id m = merchant_id ord
                          then m\<lparr>balance := balance m + settleAmount\<rparr> else m)
                     (merchants d),
              orders :=
                 map (\<lambda>r. if o_id r = o_id ord then r\<lparr>balance_added := True\<rparr> else r)
                     (orders d)\<rparr>
          else d)"

text \<open>
  \<open>sendDownstreamNotify(order)\<close> at time \<open>now\<close>. The result is the new state and the
  list of notifications handed to \<open>sendNotify\<close> (URL and order).

  \<^verbatim>\<open>if (merchants.length === 0) return;
  const settleAmount = parseFloat(order.money) - parseFloat(order.fee_money || 0);
  if (settleAmount > 0) { ... the transaction ... }
  ...
  if (!order.notify_url) return;
  const success = await sendNotify(order.notify_url, notifyParams);
  await db.query('UPDATE orders SET notify_status = ?, notify_count = notify_count + 1,
    notify_time = NOW() WHERE id = ?', [success ? 1 : 2, order.id]);\<close>
\<close>

definition sendDownstreamNotify ::
  "env \<Rightarrow> nat \<Rightarrow> db \<Rightarrow> order \<Rightarrow> db \<times> (string \<times> order) list" where
  "sendDownstreamNotify e now d ord =
     (if filter (\<lambda>m. user_id m = merchant_id ord) (merchants d) = [] then (d, [])
      else
        (let settleAmount = money ord - fee_money ord;
             d1 = (if settleAmount > 0 then creditBalance d ord settleAmount else d)
         in if \<not> truthy (notify_url ord) then (d1, [])
            else
              (let ok = sendNotify e (notify_url ord) ord
               in (d1\<lparr>orders :=
                        map (\<lambda>r. if o_id r = o_id ord
                                 then r\<lparr>notify_status := (if ok then 1 else 2),
                                        notify_count := notify_count r + 1,
                                        notify_time := Some now\<rparr>
                                 else r)
                            (orders d1)\<rparr>,
                   [(notify_url ord, ord)]))))"

text \<open>
  The paid transition shared by both transports, for a verified callback on the order
  \<open>ord\<close> as it was read at the start of the request:

  \<^verbatim>\<open>if (order.status === 0) {
    await db.query(`UPDATE orders SET status = 1, paid_at = NOW(), api_trade_no = ?,
      buyer = ? WHERE id = ?`, [result.api_trade_no || null, result.buyer || null, order.id]);
    const [updatedOrders] = await db.query('SELECT * FROM orders WHERE id = ?', [order.id]);
    await sendDownstreamNotify(updatedOrders[0]);
  }\<close>
\<close>

definition markPaid :: "nat \<Rightarrow> db \<Rightarrow> order \<Rightarrow> plugin_result \<Rightarrow> db" where
  "markPaid now d ord res =
     d\<lparr>orders :=
         map (\<lambda>r. if o_id r = o_id ord
                  then r\<lparr>status := 1, paid_at := Some now,
                         api_trade_no := orNull (res_api_trade_no res),
                         buyer := orNull (res_buyer res)\<rparr>
                  else r)
             (orders d)\<rparr>"

definition settleVerified ::
  "env \<Rightarrow> nat \<Rightarrow> db \<Rightarrow> order \<Rightarrow> plugin_result \<Rightarrow> db \<times> (string \<times> order) list" where
  "settleVerified e now d ord res =
     (if status ord = 0 then
        (let d1 = markPaid now d ord res
         in case first (filter (\<lambda>r. o_id r = o_id ord) (orders d1)) of
              None \<Rightarrow> (d1, [])
            | Some updatedOrder \<Rightarrow> sendDownstreamNotify e now d1 updatedOrder)
      else (d, []))"

text \<open>The plugin of a channel: \<open>getPlugin(channel.plugin_name || order.plugin_name)\<close>.\<close>

definition pluginFor :: "env \<Rightarrow> channel \<Rightarrow> order \<Rightarrow> plugin option" where
  "pluginFor e ch ord =
     (if truthy (ch_plugin_name ch) then getPlugin e (ch_plugin_name ch)
      else case plugin_name ord of None \<Rightarrow> None | Some n \<Rightarrow> getPlugin e n)"

text \<open>
  \<open>ALL /notify/:trade_no\<close>, the asynchronous transport. The result is the
  acknowledgement string sent upstream, the new state, and the merchant notifications
  sent.
\<close>

definition notifyRoute ::
  "env \<Rightarrow> nat \<Rightarrow> db \<Rightarrow> string \<Rightarrow> params \<Rightarrow> string \<times> db \<times> (string \<times> order) list" where
  "notifyRoute e now d tn ps =
     (case orderByTradeNo d tn of
        None \<Rightarrow> (''fail'', d, [])
      | Some ord \<Rightarrow>
          if \<not> truthyId (channel_id ord) then (''fail'', d, [])
          else
           (case first (filter (\<lambda>c. Some (ch_id c) = channel_id ord) (provider_channels d)) of
            None \<Rightarrow> (''fail'', d, [])
          | Some ch \<Rightarrow>
              (case pluginFor e ch ord of
                 None \<Rightarrow> (''fail'', d, [])
               | Some pl \<Rightarrow>
                   (case notify pl of
                      None \<Rightarrow> (''fail'', d, [])
                    | Some verify \<Rightarrow>
                        (let notifyResult = verify ch ps ord
                         in if success notifyResult then
                              (case settleVerified e now d ord notifyResult of
                                 (d', sent) \<Rightarrow>
                                   ((case getNotifyResponse pl of
                                       Some f \<Rightarrow> f True | None \<Rightarrow> ''success''), d', sent))
                            else
                              ((case getNotifyResponse pl of
                                  Some f \<Rightarrow> f False | None \<Rightarrow> ''fail''), d, []))))))"

text \<open>\<open>ALL /return/:trade_no\<close>, the browser transport.\<close>

datatype return_response = ErrorPage string | Redirect string | SuccessPage

definition returnFinish :: "order \<Rightarrow> return_response" where
  "returnFinish ord = (if truthy (return_url ord) then Redirect (return_url ord) else SuccessPage)"

definition returnRoute ::
  "env \<Rightarrow> nat \<Rightarrow> db \<Rightarrow> string \<Rightarrow> params
     \<Rightarrow> return_response \<times> db \<times> (string \<times> order) list" where
  "returnRoute e now d tn ps =
     (case orderByTradeNo d tn of
        None \<Rightarrow> (ErrorPage ''ORDER_NOT_FOUND'', d, [])
      | Some ord \<Rightarrow>
          if \<not> truthyId (channel_id ord) then (returnFinish ord, d, [])
          else
           (case first (filter (\<lambda>c. Some (ch_id c) = channel_id ord) (provider_channels d)) of
            None \<Rightarrow> (returnFinish ord, d, [])
          | Some ch \<Rightarrow>
              (case pluginFor e ch ord of
                 None \<Rightarrow> (returnFinish ord, d, [])
               | Some pl \<Rightarrow>
                   (case returnCallback pl of
                      None \<Rightarrow> (returnFinish ord, d, [])
                    | Some verify \<Rightarrow>
                        (let returnResult = verify ch ps ord
                         in if success returnResult then
                              (case settleVerified e now d ord returnResult of
                                 (d', sent) \<Rightarrow> (returnFinish ord, d', sent))
                            else if truthy (msg returnResult) then
                              (ErrorPage ''VERIFY_FAILED'', d, [])
                            else (returnFinish ord, d, []))))))"

text \<open>One delivery for an order, on either transport.\<close>

datatype delivery = Notify params | Return params

definition deliver :: "env \<Rightarrow> nat \<Rightarrow> string \<Rightarrow> db \<Rightarrow> delivery \<Rightarrow> db" where
  "deliver e now tn d dl =
     (case dl of
        Notify ps \<Rightarrow> fst (snd (notifyRoute e now d tn ps))
      | Return ps \<Rightarrow> fst (snd (returnRoute e now d tn ps)))"

section \<open>Concurrent deliveries\<close>

text \<open>
  The part of both callback routes up to the plugin's verdict: the order as it is read
  at the start of the request, and the plugin's result when it reports success.
\<close>

definition verifiedCallback ::
  "env \<Rightarrow> db \<Rightarrow> string \<Rightarrow> delivery \<Rightarrow> (order \<times> plugin_result) option" where
  "verifiedCallback e d tn dl =
     (case orderByTradeNo d tn of
        None \<Rightarrow> None
      | Some ord \<Rightarrow>
          if \<not> truthyId (channel_id ord) then None
          else
           (case first (filter (\<lambda>c. Some (ch_id c) = channel_id ord) (provider_channels d)) of
              None \<Rightarrow> None
            | Some ch \<Rightarrow>
               (case pluginFor e ch ord of
                  None \<Rightarrow> None
                | Some pl \<Rightarrow>
                   (case (case dl of
                            Notify ps \<Rightarrow> map_option (\<lambda>verify. verify ch ps ord) (notify pl)
                          | Return ps \<Rightarrow>
                              map_option (\<lambda>verify. verify ch ps ord) (returnCallback pl)) of
                      None \<Rightarrow> None
                    | Some res \<Rightarrow> if success res then Some (ord, res) else None))))"

text \<open>
  A request in flight. Every \<^verbatim>\<open>await\<close> on the database is a point where another
  request may run, so a delivery is a sequence of steps, each one statement (or one
  transaction) on the database: the reads and the plugin's check; the
  \<^verbatim>\<open>UPDATE orders SET status = 1\<close> guarded by the status of the order as it was read;
  the re-read of the order; the merchant lookup of \<open>sendDownstreamNotify\<close>; the credit
  transaction, which holds the lock on the order row from its \<^verbatim>\<open>SELECT ... FOR UPDATE\<close>
  to its commit and is therefore one step; the notification and its \<^verbatim>\<open>UPDATE\<close>.
\<close>

datatype request_state =
    Arrived delivery
  | Verified order plugin_result
  | Marked order
  | Reread order
  | Crediting order
  | Notifying order
  | Finished

fun step :: "env \<Rightarrow> nat \<Rightarrow> string \<Rightarrow> db \<Rightarrow> request_state \<Rightarrow> db \<times> request_state" where
  "step e now tn d (Arrived dl) =
     (d, case verifiedCallback e d tn dl of
           None \<Rightarrow> Finished
         | Some (ord, res) \<Rightarrow> Verified ord res)"
| "step e now tn d (Verified ord res) =
     (if status ord = 0 then (markPaid now d ord res, Marked ord) else (d, Finished))"
| "step e now tn d (Marked ord) =
     (d, case first (filter (\<lambda>r. o_id r = o_id ord) (orders d)) of
           None \<Rightarrow> Finished
         | Some updatedOrder \<Rightarrow> Reread updatedOrder)"
| "step e now tn d (Reread ord) =
     (d, if filter (\<lambda>m. user_id m = merchant_id ord) (merchants d) = [] then Finished
         else Crediting ord)"
| "step e now tn d (Crediting ord) =
     (let settleAmount = money ord - fee_money ord
      in (if settleAmount > 0 then creditBalance d ord settleAmount else d, Notifying ord))"
| "step e now tn d (Notifying ord) =
     (if \<not> truthy (notify_url ord) then (d, Finished)
      else
        (let ok = sendNotify e (notify_url ord) ord
         in (d\<lparr>orders :=
                  map (\<lambda>r. if o_id r = o_id ord
                           then r\<lparr>notify_status := (if ok then 1 else 2),
                                  notify_count := notify_count r + 1,
                                  notify_time := Some now\<rparr>
                           else r)
                      (orders d)\<rparr>,
             Finished)))"
| "step e now tn d Finished = (d, Finished)"

text \<open>
  Requests for one trade number running together: the database and the state of each
  request; a schedule names, step by step, the request that runs next.
\<close>

definition stepAt ::
  "env \<Rightarrow> nat \<Rightarrow> string \<Rightarrow> db \<times> request_state list \<Rightarrow> nat \<Rightarrow> db \<times> request_state list" where
  "stepAt e now tn st i =
     (case st of
        (d, rs) \<Rightarrow>
          if i < length rs
          then (case step e now tn d (rs ! i) of (d', r') \<Rightarrow> (d', rs[i := r']))
          else (d, rs))"

definition run ::
  "env \<Rightarrow> nat \<Rightarrow> string \<Rightarrow> db \<times> request_state list \<Rightarrow> nat list
     \<Rightarrow> db \<times> request_state list" where
  "run e now tn st schedule = foldl (stepAt e now tn) st schedule"

section \<open>Submission: request checks\<close>

text \<open>
  \<^verbatim>\<open>function validateTimestamp(timestamp) {
    const now = Math.floor(Date.now() / 1000);
    const diff = Math.abs(now - parseInt(timestamp));
    return diff <= 300; }\<close>
  \<open>now\<close> is the clock in seconds; a \<open>NaN\<close> difference is not \<open><= 300\<close>.
\<close>

definition validateTimestamp :: "int \<Rightarrow> string \<Rightarrow> bool" where
  "validateTimestamp now timestamp =
     (case parseInt timestamp of
        None \<Rightarrow> False
      | Some t \<Rightarrow> \<bar>now - t\<bar> \<le> 300)"









section \<open>Submission endpoints\<close>



















section \<open>Observations on states\<close>


text \<open>The balances of the merchant rows of a user, and a sequence of deliveries.\<close>

definition balancesOf :: "db \<Rightarrow> nat \<Rightarrow> real list" where
  "balancesOf d uid = map balance (filter (\<lambda>m. user_id m = uid) (merchants d))"

definition deliveries :: "env \<Rightarrow> nat \<Rightarrow> string \<Rightarrow> db \<Rightarrow> delivery list \<Rightarrow> db" where
  "deliveries e now tn d dls = foldl (deliver e now tn) d dls"

text \<open>
  The outcome of one settlement of the order \<open>ord\<close> of \<open>d\<close>: in \<open>d'\<close> the order is
  paid and flagged, the balance of its merchant is the one of \<open>d\<close> plus
  \<open>money - fee_money\<close>, and the rows of all other merchants are those of \<open>d\<close>.
\<close>

definition paidAndCredited :: "db \<Rightarrow> db \<Rightarrow> string \<Rightarrow> order \<Rightarrow> bool" where
  "paidAndCredited d d' tn ord =
     ((case orderByTradeNo d' tn of
         None \<Rightarrow> False
       | Some ord1 \<Rightarrow> status ord1 = 1 \<and> balance_added ord1 \<and> o_id ord1 = o_id ord)
      \<and> balancesOf d' (merchant_id ord)
          = map (\<lambda>b. b + (money ord - fee_money ord)) (balancesOf d (merchant_id ord))
      \<and> filter (\<lambda>m. user_id m \<noteq> merchant_id ord) (merchants d')
          = filter (\<lambda>m. user_id m \<noteq> merchant_id ord) (merchants d))"

section \<open>Invariants of concurrent deliveries\<close>

text \<open>
  The columns of an order row that no delivery writes, and the merchants table after
  one credit for the order.
\<close>

definition sameColumns :: "order \<Rightarrow> order \<Rightarrow> bool" where
  "sameColumns r r0 =
     (o_id r = o_id r0 \<and> trade_no r = trade_no r0 \<and> merchant_id r = merchant_id r0
      \<and> money r = money r0 \<and> fee_money r = fee_money r0)"

definition creditOnce :: "order \<Rightarrow> merchant list \<Rightarrow> merchant list" where
  "creditOnce ord0 ms =
     map (\<lambda>m. if user_id m = merchant_id ord0
              then m\<lparr>balance := balance m + (money ord0 - fee_money ord0)\<rparr> else m)
         ms"

text \<open>
  The database \<open>d\<close>, reached from \<open>d0\<close> where the order was the row \<open>ord0\<close>, holds the
  order as the row \<open>r\<close>: it is the only row with its id, a flagged row is paid and
  its amount to settle is positive, and the merchants have been credited once if the row is
  flagged and not at all otherwise.
\<close>

definition rowInv :: "db \<Rightarrow> order \<Rightarrow> db \<Rightarrow> order \<Rightarrow> bool" where
  "rowInv d0 ord0 d r =
     (filter (\<lambda>x. o_id x = o_id ord0) (orders d) = [r]
      \<and> sameColumns r ord0
      \<and> (status r = status ord0 \<or> status r = 1)
      \<and> (balance_added r \<longrightarrow> status r = 1 \<and> money ord0 - fee_money ord0 > 0)
      \<and> merchants d = (if balance_added r then creditOnce ord0 (merchants d0)
                       else merchants d0))"

text \<open>What a request in flight holds, against the row \<open>r\<close> of the order.\<close>

fun reqInv :: "order \<Rightarrow> order \<Rightarrow> request_state \<Rightarrow> bool" where
  "reqInv ord0 r (Arrived dl) = True"
| "reqInv ord0 r (Verified ord res) = (o_id ord = o_id ord0)"
| "reqInv ord0 r (Marked ord) = (o_id ord = o_id ord0 \<and> status r = 1)"
| "reqInv ord0 r (Reread ord) = (sameColumns ord ord0 \<and> status r = 1)"
| "reqInv ord0 r (Crediting ord) = (sameColumns ord ord0 \<and> status r = 1)"
| "reqInv ord0 r (Notifying ord) =
     (sameColumns ord ord0 \<and> status r = 1
      \<and> (money ord0 - fee_money ord0 > 0 \<longrightarrow> balance_added r))"
| "reqInv ord0 r Finished = True"

text \<open>A request that has marked the order paid and has not yet run the credit.\<close>

fun working :: "request_state \<Rightarrow> bool" where
  "working (Marked ord) = True"
| "working (Reread ord) = True"
| "working (Crediting ord) = True"
| "working q = False"

text \<open>The number of steps a request has left at most.\<close>

fun stepsLeft :: "request_state \<Rightarrow> nat" where
  "stepsLeft (Arrived dl) = 6"
| "stepsLeft (Verified ord res) = 5"
| "stepsLeft (Marked ord) = 4"
| "stepsLeft (Reread ord) = 3"
| "stepsLeft (Crediting ord) = 2"
| "stepsLeft (Notifying ord) = 1"
| "stepsLeft Finished = 0"

definition creditDue :: "db \<Rightarrow> order \<Rightarrow> bool" where
  "creditDue d0 ord0 =
     (filter (\<lambda>m. user_id m = merchant_id ord0) (merchants d0) \<noteq> []
      \<and> money ord0 - fee_money ord0 > 0)"

definition pendingOrder :: "db \<Rightarrow> string \<Rightarrow> order \<Rightarrow> bool" where
  "pendingOrder d tn ord =
     (distinct (map o_id (orders d)) \<and> orderByTradeNo d tn = Some ord
      \<and> status ord = 0 \<and> \<not> balance_added ord)"

definition sysInv :: "db \<Rightarrow> order \<Rightarrow> string \<Rightarrow> db \<times> request_state list \<Rightarrow> bool" where
  "sysInv d0 ord0 tn st =
     (case st of
        (d, rs) \<Rightarrow>
          (case orderByTradeNo d tn of
             None \<Rightarrow> False
           | Some r \<Rightarrow>
               rowInv d0 ord0 d r \<and> list_all (reqInv ord0 r) rs
               \<and> (creditDue d0 ord0 \<and> status r = 1
                    \<longrightarrow> balance_added r \<or> list_ex working rs)))"

section \<open>A small installation\<close>

text \<open>
  Concrete rows on which the properties below are exercised: two enabled channels for
  \<open>alipay\<close> (the second requires buyers of at least 18), one active merchant with a
  uniform rate of 3% and no RSA key, and no pay group.
\<close>

definition channelA :: channel where
  "channelA =
     \<lparr>ch_id = 1, channel_name = ''A'', ch_plugin_name = ''alipay'', ch_pay_type = [''alipay''],
      ch_status = 1, priority = 5, min_money = Some 1, max_money = Some 10000,
      is_deleted = False, config = ConfigParams None\<rparr>"

definition channelB :: channel where
  "channelB =
     \<lparr>ch_id = 2, channel_name = ''B'', ch_plugin_name = ''alipay'',
      ch_pay_type = [''alipay'', ''wxpay''],
      ch_status = 1, priority = 1, min_money = None, max_money = None,
      is_deleted = False, config = ConfigParams (Some ''18'')\<rparr>"

definition merchant1 :: merchant where
  "merchant1 =
     \<lparr>user_id = 7, pid = ''100000000001'', api_key = ''k'', rsa_public_key = '''',
      fee_rate = Some (3 / 100), fee_rates = None, m_fee_payer = ''merchant'',
      pay_group_id = None, balance = 0, m_status = ''active''\<rparr>"

definition shop0 :: db where
  "shop0 =
     \<lparr>orders = [], merchants = [merchant1], provider_channels = [channelA, channelB],
      provider_pay_groups = [], channel_groups = []\<rparr>"

text \<open>A first submission without a pay type, and a resubmission naming channel 2.\<close>

definition submitOnce :: order_data where
  "submitOnce =
     \<lparr>merchantId = 7, channelId = None, tradeNo = ''T1'', outTradeNo = ''O1'',
      payType = '''', orderName = ''item'', moneyFloat = 100, clientIp = ''::1'',
      notifyUrl = ''http://m/n'', returnUrl = '''', feeRate = Some 0, feePayer = ''merchant'',
      orderType = ''normal'', cryptoPid = None, certInfo = None\<rparr>"

definition submitAgain :: order_data where
  "submitAgain =
     \<lparr>merchantId = 7, channelId = Some 2, tradeNo = ''T2'', outTradeNo = ''O1'',
      payType = ''alipay'', orderName = ''item'', moneyFloat = 100, clientIp = ''::1'',
      notifyUrl = ''http://m/n'', returnUrl = '''', feeRate = Some (3 / 100),
      feePayer = ''merchant'', orderType = ''normal'', cryptoPid = None, certInfo = None\<rparr>"


text \<open>The state after the first submission, and after its dispatch with pay type \<open>alipay\<close>.\<close>

definition shop1 :: db where
  "shop1 = snd (createOrder 0 shop0 submitOnce)"

definition shop2 :: db where
  "shop2 = dopayState shop1 ''T1'' ''alipay'' None 0 0"





text \<open>
  The plugin of both channels accepts a callback that reports \<open>TRADE_SUCCESS\<close>; the
  merchant acknowledges every notification. The last order is one whose fee is the whole
  amount.
\<close>

definition paidCallback :: params where
  "paidCallback = [(''trade_status'', ''TRADE_SUCCESS'')]"

definition alipayPlugin :: plugin where
  "alipayPlugin =
     \<lparr>notify =
        Some (\<lambda>ch ps ord.
                \<lparr>success = (paramValue ps ''trade_status'' = ''TRADE_SUCCESS''),
                 res_api_trade_no = ''A1'', res_buyer = ''b'', msg = ''''\<rparr>),
      returnCallback =
        Some (\<lambda>ch ps ord.
                \<lparr>success = (paramValue ps ''trade_status'' = ''TRADE_SUCCESS''),
                 res_api_trade_no = ''A1'', res_buyer = ''b'', msg = ''''\<rparr>),
      getNotifyResponse = None\<rparr>"

definition gateway :: env where
  "gateway =
     \<lparr>getPlugin = (\<lambda>n. if n = ''alipay'' then Some alipayPlugin else None),
      sendNotify = (\<lambda>url ord. True)\<rparr>"

definition feeTakesAll :: order_data where
  "feeTakesAll =
     \<lparr>merchantId = 7, channelId = Some 1, tradeNo = ''T5'', outTradeNo = ''O5'',
      payType = ''alipay'', orderName = ''item'', moneyFloat = 5, clientIp = ''::1'',
      notifyUrl = ''http://m/n'', returnUrl = '''', feeRate = Some 1,
      feePayer = ''merchant'', orderType = ''normal'', cryptoPid = None, certInfo = None\<rparr>"

definition shop4 :: db where
  "shop4 = snd (createOrder 0 shop0 feeTakesAll)"

chapter \<open>Properties\<close>

section \<open>Fee normalisation\<close>

text \<open>
  C5 (as stated, refuted): normalising twice is not normalising once for every raw rate.
  The raw rate 100 normalises to 1, and 1 is again read as a percentage and becomes
  0.01.
\<close>

theorem normalize_not_idempotent_at_100:
  "normalizeRateToDecimal (Some (normalizeRateToDecimal (Some 100)))
     \<noteq> normalizeRateToDecimal (Some 100)"
  by (simp add: normalizeRateToDecimal_def)

text \<open>
  C5 (amended): for every raw rate below 100, and for every non-numeric raw rate,
  normalising twice equals normalising once; a non-numeric rate normalises to 0, a
  rate of at least 1 is divided by 100, a rate below 1 is unchanged, and
  \<open>normalize 6 = 0.06 = normalize 0.06\<close>.
\<close>

theorem normalize_idempotent_below_100:
  "(case r of None \<Rightarrow> True | Some v \<Rightarrow> v < 100) \<Longrightarrow>
     normalizeRateToDecimal (Some (normalizeRateToDecimal r)) = normalizeRateToDecimal r
     \<and> normalizeRateToDecimal None = 0
     \<and> (\<forall>v. v \<ge> 1 \<longrightarrow> normalizeRateToDecimal (Some v) = v / 100)
     \<and> (\<forall>v. v < 1 \<longrightarrow> normalizeRateToDecimal (Some v) = v)
     \<and> normalizeRateToDecimal (Some 6) = 6 / 100
     \<and> normalizeRateToDecimal (Some (6 / 100)) = 6 / 100"
  by (cases r) (auto simp: normalizeRateToDecimal_def)

theorem normalize_idempotent_below_100_witness:
  "normalizeRateToDecimal (Some (normalizeRateToDecimal (Some 6))) = 6 / 100
   \<and> normalizeRateToDecimal (Some (normalizeRateToDecimal None)) = 0"
  using normalize_idempotent_below_100 [of "Some 6"] normalize_idempotent_below_100 [of None]
  by simp

section \<open>Signature round trip\<close>






section \<open>Order creation and reuse\<close>

lemma take1_empty: "take 1 xs = [] \<longleftrightarrow> xs = []"
  by (cases xs) auto

lemma sort_key_empty: "sort_key f xs = [] \<longleftrightarrow> xs = []"
  by (metis length_sort length_0_conv)

lemma existingOrders_empty:
  "existingOrders d mid otn = [] \<longleftrightarrow> filter (pending mid otn) (orders d) = []"
  by (simp add: existingOrders_def take1_empty sort_key_empty)

lemma existingOrders_mem:
  assumes "existingOrders d mid otn = ex # rest"
  shows "ex \<in> set (orders d) \<and> pending mid otn ex \<and> rest = []"
proof -
  let ?s = "sort_key (\<lambda>r. - int (o_id r)) (filter (pending mid otn) (orders d))"
  from assms have t: "take 1 ?s = ex # rest" by (simp add: existingOrders_def)
  then obtain ys where s: "?s = ex # ys" and "rest = []"
    by (cases ?s) auto
  have "ex \<in> set ?s" by (simp add: s)
  then have "ex \<in> set (filter (pending mid otn) (orders d))" by simp
  with \<open>rest = []\<close> show ?thesis by simp
qed

lemma createOrder_reuse:
  assumes "existingOrders d (merchantId data) (outTradeNo data) = ex # rest"
  shows "createOrder now d data =
    (\<lparr>orderId = o_id ex, resTradeNo = trade_no ex, isExisting = True\<rparr>,
     d\<lparr>orders :=
        map (\<lambda>r. if o_id r = o_id ex
                 then reusedOrder data (feeMoneyOf (moneyFloat data) (feeRate data))
                        (realMoneyOf (moneyFloat data)
                           (feeMoneyOf (moneyFloat data) (feeRate data)) (feePayer data)) r
                 else r)
            (orders d)\<rparr>)"
  using assms by (simp add: createOrder_def Let_def)

lemma createOrder_new:
  assumes "existingOrders d (merchantId data) (outTradeNo data) = []"
  shows "createOrder now d data =
           (\<lparr>orderId = insertId d, resTradeNo = tradeNo data, isExisting = False\<rparr>,
            d\<lparr>orders := orders d @
               [insertedOrder now d data (feeMoneyOf (moneyFloat data) (feeRate data))
                  (realMoneyOf (moneyFloat data)
                     (feeMoneyOf (moneyFloat data) (feeRate data)) (feePayer data))]\<rparr>)"
  using assms by (simp add: createOrder_def Let_def)

lemma pending_reusedOrder [simp]: "pending mid otn (reusedOrder data f rm r) = pending mid otn r"
  by (simp add: pending_def reusedOrder_def)

lemma pending_insertedOrder [simp]:
  "pending mid otn (insertedOrder now d data f rm)
     \<longleftrightarrow> mid = merchantId data \<and> otn = outTradeNo data"
  by (auto simp: pending_def insertedOrder_def)

lemma filter_pending_map:
  assumes "\<And>r. pending mid otn (f r) = pending mid otn r"
  shows "length (filter (pending mid otn) (map f xs)) = length (filter (pending mid otn) xs)"
  using assms by (induction xs) auto

lemma createOrder_pending_unique:
  assumes "\<forall>mid otn. length (filter (pending mid otn) (orders d)) \<le> 1"
  shows "length (filter (pending mid otn) (orders (snd (createOrder now d data)))) \<le> 1"
proof (cases "existingOrders d (merchantId data) (outTradeNo data)")
  case Nil
  have e: "filter (pending (merchantId data) (outTradeNo data)) (orders d) = []"
    using Nil by (simp add: existingOrders_empty)
  show ?thesis
  proof (cases "mid = merchantId data \<and> otn = outTradeNo data")
    case True
    then show ?thesis using e by (simp add: createOrder_new [OF Nil])
  next
    case False
    then show ?thesis using assms by (auto simp add: createOrder_new [OF Nil])
  qed
next
  case (Cons ex rest)
  have "length (filter (pending mid otn)
           (map (\<lambda>r. if o_id r = o_id ex
                 then reusedOrder data (feeMoneyOf (moneyFloat data) (feeRate data))
                        (realMoneyOf (moneyFloat data)
                           (feeMoneyOf (moneyFloat data) (feeRate data)) (feePayer data)) r
                 else r) (orders d)))
        = length (filter (pending mid otn) (orders d))"
    by (rule filter_pending_map) simp
  then show ?thesis
    using assms by (simp add: createOrder_reuse [OF Cons])
qed

lemma createOrder_twice:
  assumes "filter (pending (merchantId data) (outTradeNo data)) (orders d) = []"
    and "merchantId data' = merchantId data" "outTradeNo data' = outTradeNo data"
  shows "length (orders (snd (createOrder now' (snd (createOrder now d data)) data')))
           = Suc (length (orders d))
       \<and> \<not> isExisting (fst (createOrder now d data))
       \<and> resTradeNo (fst (createOrder now d data)) = tradeNo data
       \<and> isExisting (fst (createOrder now' (snd (createOrder now d data)) data'))
       \<and> resTradeNo (fst (createOrder now' (snd (createOrder now d data)) data')) = tradeNo data
       \<and> orderId (fst (createOrder now' (snd (createOrder now d data)) data'))
           = orderId (fst (createOrder now d data))"
proof -
  have Nil: "existingOrders d (merchantId data) (outTradeNo data) = []"
    using assms(1) by (simp add: existingOrders_empty)
  let ?r = "insertedOrder now d data (feeMoneyOf (moneyFloat data) (feeRate data))
                  (realMoneyOf (moneyFloat data)
                     (feeMoneyOf (moneyFloat data) (feeRate data)) (feePayer data))"
  let ?d1 = "d\<lparr>orders := orders d @ [?r]\<rparr>"
  have ex: "existingOrders ?d1 (merchantId data') (outTradeNo data') = [?r]"
    using assms by (simp add: existingOrders_def)
  have r: "trade_no ?r = tradeNo data" "o_id ?r = insertId d"
    by (simp_all add: insertedOrder_def)
  show ?thesis
    by (simp add: createOrder_new [OF Nil] createOrder_reuse [OF ex] r)
qed

text \<open>
  C3: when a pending order (\<open>status = 0\<close>) of the same merchant and out-trade-no exists,
  \<open>createOrder\<close> inserts no row. It answers with the id and the trade number of such a
  pending row and \<open>isExisting\<close>, and rewrites that row in place: channel, pay type,
  notify and return URLs, the fee fields and \<open>cert_info\<close>; every other row is as before.
  Submitting twice from a state without such a pending order therefore gives one new row,
  and the second answer carries the trade number of the first. Creation also keeps the
  invariant that a merchant and out-trade-no have at most one pending row.
\<close>

theorem resubmission_reuses_pending_order:
  "(r0 \<in> set (orders d) \<and> pending (merchantId data) (outTradeNo data) r0 \<longrightarrow>
      (\<exists>ex \<in> set (orders d). pending (merchantId data) (outTradeNo data) ex
        \<and> fst (createOrder now d data)
            = \<lparr>orderId = o_id ex, resTradeNo = trade_no ex, isExisting = True\<rparr>
        \<and> length (orders (snd (createOrder now d data))) = length (orders d)
        \<and> orders (snd (createOrder now d data))
            = map (\<lambda>r. if o_id r = o_id ex
                       then r\<lparr>channel_id := channelId data, pay_type := payType data,
                              notify_url := notifyUrl data, return_url := returnUrl data,
                              fee_money := feeMoneyOf (moneyFloat data) (feeRate data),
                              real_money := realMoneyOf (moneyFloat data)
                                (feeMoneyOf (moneyFloat data) (feeRate data)) (feePayer data),
                              fee_payer := orMerchant (feePayer data),
                              cert_info := certInfo data\<rparr>
                       else r)
                  (orders d)))
   \<and> (filter (pending (merchantId data1) (outTradeNo data1)) (orders d1) = []
        \<and> merchantId data2 = merchantId data1 \<and> outTradeNo data2 = outTradeNo data1 \<longrightarrow>
        length (orders (snd (createOrder now2 (snd (createOrder now1 d1 data1)) data2)))
           = Suc (length (orders d1))
        \<and> isExisting (fst (createOrder now2 (snd (createOrder now1 d1 data1)) data2))
        \<and> resTradeNo (fst (createOrder now2 (snd (createOrder now1 d1 data1)) data2))
            = resTradeNo (fst (createOrder now1 d1 data1)))
   \<and> ((\<forall>mid otn. length (filter (pending mid otn) (orders d)) \<le> 1) \<longrightarrow>
        (\<forall>mid otn. length (filter (pending mid otn) (orders (snd (createOrder now d data)))) \<le> 1))"
proof (intro conjI impI)
  assume a: "r0 \<in> set (orders d) \<and> pending (merchantId data) (outTradeNo data) r0"
  then have "filter (pending (merchantId data) (outTradeNo data)) (orders d) \<noteq> []"
    by (auto simp: filter_empty_conv)
  then obtain ex rest where
    ex: "existingOrders d (merchantId data) (outTradeNo data) = ex # rest"
    by (cases "existingOrders d (merchantId data) (outTradeNo data)")
       (simp_all add: existingOrders_empty)
  from existingOrders_mem [OF ex]
  have m: "ex \<in> set (orders d)" "pending (merchantId data) (outTradeNo data) ex" by simp_all
  show "\<exists>ex \<in> set (orders d). pending (merchantId data) (outTradeNo data) ex
        \<and> fst (createOrder now d data)
            = \<lparr>orderId = o_id ex, resTradeNo = trade_no ex, isExisting = True\<rparr>
        \<and> length (orders (snd (createOrder now d data))) = length (orders d)
        \<and> orders (snd (createOrder now d data))
            = map (\<lambda>r. if o_id r = o_id ex
                       then r\<lparr>channel_id := channelId data, pay_type := payType data,
                              notify_url := notifyUrl data, return_url := returnUrl data,
                              fee_money := feeMoneyOf (moneyFloat data) (feeRate data),
                              real_money := realMoneyOf (moneyFloat data)
                                (feeMoneyOf (moneyFloat data) (feeRate data)) (feePayer data),
                              fee_payer := orMerchant (feePayer data),
                              cert_info := certInfo data\<rparr>
                       else r)
                  (orders d)"
    using m by (intro bexI [of _ ex]) (simp_all add: createOrder_reuse [OF ex] reusedOrder_def)
next
  assume "filter (pending (merchantId data1) (outTradeNo data1)) (orders d1) = []
        \<and> merchantId data2 = merchantId data1 \<and> outTradeNo data2 = outTradeNo data1"
  then have h: "filter (pending (merchantId data1) (outTradeNo data1)) (orders d1) = []"
    "merchantId data2 = merchantId data1" "outTradeNo data2 = outTradeNo data1" by simp_all
  note t = createOrder_twice [OF h, of now2 now1]
  show "length (orders (snd (createOrder now2 (snd (createOrder now1 d1 data1)) data2)))
           = Suc (length (orders d1))"
    using t by simp
  show "isExisting (fst (createOrder now2 (snd (createOrder now1 d1 data1)) data2))"
    using t by simp
  show "resTradeNo (fst (createOrder now2 (snd (createOrder now1 d1 data1)) data2))
            = resTradeNo (fst (createOrder now1 d1 data1))"
    using t by simp
next
  assume "\<forall>mid otn. length (filter (pending mid otn) (orders d)) \<le> 1"
  then show "\<forall>mid otn. length (filter (pending mid otn) (orders (snd (createOrder now d data)))) \<le> 1"
    using createOrder_pending_unique by blast
qed

theorem resubmission_reuses_pending_order_witness:
  "(\<exists>ex \<in> set (orders shop1). pending (merchantId submitAgain) (outTradeNo submitAgain) ex
        \<and> fst (createOrder 1 shop1 submitAgain)
            = \<lparr>orderId = o_id ex, resTradeNo = trade_no ex, isExisting = True\<rparr>
        \<and> length (orders (snd (createOrder 1 shop1 submitAgain))) = length (orders shop1)
        \<and> orders (snd (createOrder 1 shop1 submitAgain))
            = map (\<lambda>r. if o_id r = o_id ex
                       then r\<lparr>channel_id := channelId submitAgain, pay_type := payType submitAgain,
                              notify_url := notifyUrl submitAgain, return_url := returnUrl submitAgain,
                              fee_money := feeMoneyOf (moneyFloat submitAgain) (feeRate submitAgain),
                              real_money := realMoneyOf (moneyFloat submitAgain)
                                (feeMoneyOf (moneyFloat submitAgain) (feeRate submitAgain)) (feePayer submitAgain),
                              fee_payer := orMerchant (feePayer submitAgain),
                              cert_info := certInfo submitAgain\<rparr>
                       else r)
                  (orders shop1))
   \<and> (length (orders (snd (createOrder 1 (snd (createOrder 0 shop0 submitOnce)) submitAgain)))
           = Suc (length (orders shop0))
        \<and> isExisting (fst (createOrder 1 (snd (createOrder 0 shop0 submitOnce)) submitAgain))
        \<and> resTradeNo (fst (createOrder 1 (snd (createOrder 0 shop0 submitOnce)) submitAgain))
            = resTradeNo (fst (createOrder 0 shop0 submitOnce)))
   \<and> (\<forall>mid otn. length (filter (pending mid otn) (orders (snd (createOrder 1 shop1 submitAgain)))) \<le> 1)"
proof -
  have h1: "hd (orders shop1) \<in> set (orders shop1)
            \<and> pending (merchantId submitAgain) (outTradeNo submitAgain) (hd (orders shop1))"
    by code_simp
  have h2: "filter (pending (merchantId submitOnce) (outTradeNo submitOnce)) (orders shop0) = []
        \<and> merchantId submitAgain = merchantId submitOnce \<and> outTradeNo submitAgain = outTradeNo submitOnce"
    by code_simp
  have one: "length (orders shop1) = 1" by code_simp
  have h3: "\<forall>mid otn. length (filter (pending mid otn) (orders shop1)) \<le> 1"
  proof (intro allI)
    fix mid otn
    have "length (filter (pending mid otn) (orders shop1)) \<le> length (orders shop1)"
      by (rule length_filter_le)
    then show "length (filter (pending mid otn) (orders shop1)) \<le> 1" by (simp add: one)
  qed
  note T = resubmission_reuses_pending_order
             [where ?r0.0 = "hd (orders shop1)" and d = shop1 and data = submitAgain and now = 1
                and ?data1.0 = submitOnce and ?d1.0 = shop0 and ?data2.0 = submitAgain and ?now1.0 = 0
                and ?now2.0 = 1]
  show ?thesis
    by (intro conjI)
       (rule T [THEN conjunct1, THEN mp, OF h1],
        rule T [THEN conjunct2, THEN conjunct1, THEN mp, OF h2, THEN conjunct1],
        rule T [THEN conjunct2, THEN conjunct1, THEN mp, OF h2, THEN conjunct2, THEN conjunct1],
        rule T [THEN conjunct2, THEN conjunct1, THEN mp, OF h2, THEN conjunct2, THEN conjunct2],
        rule T [THEN conjunct2, THEN conjunct2, THEN mp, OF h3])
qed

section \<open>Rounding and lookups\<close>





lemma first_filter_Some: "first (filter P xs) = Some x \<Longrightarrow> x \<in> set xs \<and> P x"
  by (cases "filter P xs") (auto simp: first_def dest: filter_eq_ConsD)


lemma orderByTradeNo_mem:
  "orderByTradeNo d tn = Some ord \<Longrightarrow> ord \<in> set (orders d) \<and> trade_no ord = tn"
  unfolding orderByTradeNo_def by (drule first_filter_Some) simp




section \<open>Fee fields\<close>





section \<open>Channel lock\<close>


lemma map_channel_id_upd:
  assumes "\<And>r. channel_id (f r) = channel_id r"
  shows "map channel_id (map (\<lambda>r. if P r then f r else r) xs) = map channel_id xs"
  using assms by (induction xs) auto

lemma markPaid_channels [simp]:
  "map channel_id (orders (markPaid now d ord res)) = map channel_id (orders d)"
  by (simp add: markPaid_def map_channel_id_upd del: map_map)

lemma creditBalance_channels [simp]:
  "map channel_id (orders (creditBalance d ord a)) = map channel_id (orders d)"
  by (simp add: creditBalance_def map_channel_id_upd del: map_map split: list.splits)

lemma sendDownstreamNotify_channels [simp]:
  "map channel_id (orders (fst (sendDownstreamNotify e now d ord))) = map channel_id (orders d)"
  by (simp add: sendDownstreamNotify_def Let_def map_channel_id_upd del: map_map)

lemma settleVerified_channels [simp]:
  "map channel_id (orders (fst (settleVerified e now d ord res))) = map channel_id (orders d)"
  by (simp add: settleVerified_def Let_def split: option.splits)










section \<open>Eligibility by minimum age\<close>













section \<open>Replay window\<close>

lemma validateTimestamp_iff:
  "validateTimestamp now ts \<longleftrightarrow> (\<exists>t. parseInt ts = Some t \<and> \<bar>now - t\<bar> \<le> 300)"
  by (simp add: validateTimestamp_def split: option.splits)







section \<open>RSA requests of merchants without an RSA key\<close>







section \<open>Settlement\<close>

lemma first_map: "first (map g xs) = map_option g (first xs)"
  by (cases xs) (simp_all add: first_def)

lemma filter_id_upd:
  assumes "\<And>r. o_id (g r) = o_id r"
  shows "filter (\<lambda>r. o_id r = i) (map (\<lambda>r. if o_id r = j then g r else r) xs)
         = (if i = j then map g (filter (\<lambda>r. o_id r = i) xs) else filter (\<lambda>r. o_id r = i) xs)"
  by (cases "i = j") (induction xs, simp_all add: assms)+

lemma filter_tn_upd:
  assumes "\<And>r. trade_no (g r) = trade_no r"
  shows "filter (\<lambda>r. trade_no r = tn) (map (\<lambda>r. if o_id r = j then g r else r) xs)
         = map (\<lambda>r. if o_id r = j then g r else r) (filter (\<lambda>r. trade_no r = tn) xs)"
  by (induction xs) (simp_all add: assms)

lemma filter_distinct_single:
  assumes "distinct (map f xs)" "r \<in> set xs"
  shows "filter (\<lambda>x. f x = f r) xs = [r]"
  using assms
proof (induction xs)
  case Nil
  then show ?case by simp
next
  case (Cons a xs)
  show ?case
  proof (cases "a = r")
    case True
    have "filter (\<lambda>x. f x = f r) xs = []"
      using Cons.prems True by (auto simp: filter_empty_conv image_iff)
    then show ?thesis using True by simp
  next
    case False
    then have "r \<in> set xs" using Cons.prems by simp
    moreover have "f a \<noteq> f r" using Cons.prems \<open>r \<in> set xs\<close> by auto
    ultimately show ?thesis using Cons by simp
  qed
qed

lemma byId_of_byTradeNo:
  assumes "distinct (map o_id (orders d))" "orderByTradeNo d tn = Some ord"
  shows "filter (\<lambda>r. o_id r = o_id ord) (orders d) = [ord]"
  using filter_distinct_single [OF assms(1)] orderByTradeNo_mem [OF assms(2)] by blast


lemma markPaid_byId:
  "filter (\<lambda>r. o_id r = i) (orders (markPaid now d ord res))
   = (if i = o_id ord
      then map (\<lambda>r. r\<lparr>status := 1, paid_at := Some now,
                       api_trade_no := orNull (res_api_trade_no res),
                       buyer := orNull (res_buyer res)\<rparr>)
               (filter (\<lambda>r. o_id r = i) (orders d))
      else filter (\<lambda>r. o_id r = i) (orders d))"
  unfolding markPaid_def by (simp add: filter_id_upd)

lemma creditBalance_flagged:
  assumes "filter (\<lambda>r. o_id r = o_id ord) (orders d) = oc # rest" "balance_added oc"
  shows "creditBalance d ord s = d"
  using assms by (simp add: creditBalance_def)

lemma creditBalance_unflagged:
  assumes "filter (\<lambda>r. o_id r = o_id ord) (orders d) = oc # rest" "\<not> balance_added oc"
  shows "creditBalance d ord s =
           d\<lparr>merchants :=
                map (\<lambda>m. if user_id m = merchant_id ord
                         then m\<lparr>balance := balance m + s\<rparr> else m)
                    (merchants d),
             orders :=
                map (\<lambda>r. if o_id r = o_id ord then r\<lparr>balance_added := True\<rparr> else r)
                    (orders d)\<rparr>"
  using assms by (simp add: creditBalance_def)

lemma balancesOf_credit:
  "map balance (filter (\<lambda>m. user_id m = uid)
      (map (\<lambda>m. if user_id m = u then m\<lparr>balance := balance m + s\<rparr> else m) ms))
   = (if uid = u then map (\<lambda>b. b + s) (map balance (filter (\<lambda>m. user_id m = uid) ms))
      else map balance (filter (\<lambda>m. user_id m = uid) ms))"
  by (cases "uid = u") (induction ms, simp_all)+

lemma sendDownstreamNotify_merchants:
  "merchants (fst (sendDownstreamNotify e now d ord))
   = merchants (if filter (\<lambda>m. user_id m = merchant_id ord) (merchants d) \<noteq> []
                   \<and> money ord - fee_money ord > 0
                then creditBalance d ord (money ord - fee_money ord) else d)"
  by (simp add: sendDownstreamNotify_def Let_def)

lemma sendDownstreamNotify_orders:
  "orders (fst (sendDownstreamNotify e now d ord))
   = (let d1 = (if filter (\<lambda>m. user_id m = merchant_id ord) (merchants d) \<noteq> []
                   \<and> money ord - fee_money ord > 0
                then creditBalance d ord (money ord - fee_money ord) else d)
      in if filter (\<lambda>m. user_id m = merchant_id ord) (merchants d) \<noteq> []
            \<and> truthy (notify_url ord)
         then map (\<lambda>r. if o_id r = o_id ord
                        then r\<lparr>notify_status := (if sendNotify e (notify_url ord) ord then 1 else 2),
                               notify_count := notify_count r + 1,
                               notify_time := Some now\<rparr>
                        else r)
                  (orders d1)
         else orders d1)"
  by (simp add: sendDownstreamNotify_def Let_def)


lemma orderByTradeNo_upd:
  assumes "\<And>r. trade_no (g r) = trade_no r"
  shows "first (filter (\<lambda>r. trade_no r = tn) (map (\<lambda>r. if o_id r = j then g r else r) xs))
         = map_option (\<lambda>r. if o_id r = j then g r else r)
             (first (filter (\<lambda>r. trade_no r = tn) xs))"
  by (simp add: filter_tn_upd [OF assms] first_map)

lemma others_credit:
  "filter (\<lambda>m. user_id m \<noteq> u)
      (map (\<lambda>m. if user_id m = u then m\<lparr>balance := balance m + s\<rparr> else m) ms)
   = filter (\<lambda>m. user_id m \<noteq> u) ms"
  by (induction ms) simp_all

lemma settleVerified_effect:
  assumes byId: "filter (\<lambda>r. o_id r = o_id ord) (orders d) = [ord]"
    and tn: "orderByTradeNo d tn = Some ord"
    and st: "status ord = 0"
  shows "\<exists>ord1. orderByTradeNo (fst (settleVerified e now d ord res)) tn = Some ord1
           \<and> status ord1 = 1 \<and> o_id ord1 = o_id ord
           \<and> (balance_added ord1 \<longleftrightarrow>
                balance_added ord
                \<or> (filter (\<lambda>m. user_id m = merchant_id ord) (merchants d) \<noteq> []
                    \<and> money ord - fee_money ord > 0))"
    and "balancesOf (fst (settleVerified e now d ord res)) uid
         = (if filter (\<lambda>m. user_id m = merchant_id ord) (merchants d) \<noteq> []
               \<and> money ord - fee_money ord > 0 \<and> \<not> balance_added ord
               \<and> uid = merchant_id ord
            then map (\<lambda>b. b + (money ord - fee_money ord)) (balancesOf d uid)
            else balancesOf d uid)"
    and "filter (\<lambda>m. user_id m \<noteq> merchant_id ord)
           (merchants (fst (settleVerified e now d ord res)))
         = filter (\<lambda>m. user_id m \<noteq> merchant_id ord) (merchants d)"
proof -
  define paid where "paid = ord\<lparr>status := 1, paid_at := Some now,
                       api_trade_no := orNull (res_api_trade_no res),
                       buyer := orNull (res_buyer res)\<rparr>"
  define d1 where "d1 = markPaid now d ord res"
  have f1: "filter (\<lambda>r. o_id r = o_id ord) (orders d1) = [paid]"
    unfolding d1_def by (simp add: markPaid_byId byId paid_def)
  have m1: "merchants d1 = merchants d"
    unfolding d1_def by (simp add: markPaid_def)
  have t0: "first (filter (\<lambda>r. trade_no r = tn) (orders d)) = Some ord"
    using tn by (simp add: orderByTradeNo_def)
  have t1: "first (filter (\<lambda>r. trade_no r = tn) (orders d1)) = Some paid"
    unfolding d1_def markPaid_def by (simp add: orderByTradeNo_upd t0 paid_def)
  have sv: "settleVerified e now d ord res = sendDownstreamNotify e now d1 paid"
    using st f1 by (simp add: settleVerified_def d1_def [symmetric] first_def)
  have pf: "o_id paid = o_id ord" "merchant_id paid = merchant_id ord"
    "money paid = money ord" "fee_money paid = fee_money ord" "status paid = 1"
    "balance_added paid = balance_added ord"
    by (simp_all add: paid_def)
  define d2 where "d2 = (if filter (\<lambda>m. user_id m = merchant_id ord) (merchants d) \<noteq> []
                   \<and> money ord - fee_money ord > 0
                then creditBalance d1 paid (money ord - fee_money ord) else d1)"
  have f1': "filter (\<lambda>r. o_id r = o_id paid) (orders d1) = paid # []"
    using f1 by (simp add: pf)
  have cb: "creditBalance d1 paid s =
              (if balance_added ord then d1
               else d1\<lparr>merchants :=
                          map (\<lambda>m. if user_id m = merchant_id ord
                                   then m\<lparr>balance := balance m + s\<rparr> else m)
                              (merchants d1),
                       orders :=
                          map (\<lambda>r. if o_id r = o_id ord then r\<lparr>balance_added := True\<rparr> else r)
                              (orders d1)\<rparr>)" for s
    using creditBalance_flagged [OF f1', of s] creditBalance_unflagged [OF f1', of s]
    by (simp add: pf)
  have t2: "\<exists>ord2. first (filter (\<lambda>r. trade_no r = tn) (orders d2)) = Some ord2
           \<and> status ord2 = 1 \<and> o_id ord2 = o_id ord
           \<and> (balance_added ord2 \<longleftrightarrow>
                balance_added ord
                \<or> (filter (\<lambda>m. user_id m = merchant_id ord) (merchants d) \<noteq> []
                    \<and> money ord - fee_money ord > 0))"
    unfolding d2_def by (simp add: cb orderByTradeNo_upd t1 pf)
  have o3: "orders (fst (sendDownstreamNotify e now d1 paid))
      = (if filter (\<lambda>m. user_id m = merchant_id ord) (merchants d) \<noteq> []
            \<and> truthy (notify_url paid)
         then map (\<lambda>r. if o_id r = o_id ord
                        then r\<lparr>notify_status := (if sendNotify e (notify_url paid) paid then 1 else 2),
                               notify_count := notify_count r + 1,
                               notify_time := Some now\<rparr>
                        else r)
                  (orders d2)
         else orders d2)"
    by (simp add: sendDownstreamNotify_orders pf m1 d2_def Let_def)
  from t2 obtain ord2 where
    o2: "first (filter (\<lambda>r. trade_no r = tn) (orders d2)) = Some ord2"
    and p2: "status ord2 = 1" "o_id ord2 = o_id ord"
      "balance_added ord2 \<longleftrightarrow>
                balance_added ord
                \<or> (filter (\<lambda>m. user_id m = merchant_id ord) (merchants d) \<noteq> []
                    \<and> money ord - fee_money ord > 0)"
    by blast
  show "\<exists>ord1. orderByTradeNo (fst (settleVerified e now d ord res)) tn = Some ord1
           \<and> status ord1 = 1 \<and> o_id ord1 = o_id ord
           \<and> (balance_added ord1 \<longleftrightarrow>
                balance_added ord
                \<or> (filter (\<lambda>m. user_id m = merchant_id ord) (merchants d) \<noteq> []
                    \<and> money ord - fee_money ord > 0))"
    unfolding sv orderByTradeNo_def o3
    using p2 by (simp add: orderByTradeNo_upd o2)
  have m3: "merchants (fst (sendDownstreamNotify e now d1 paid)) = merchants d2"
    by (simp add: sendDownstreamNotify_merchants pf m1 d2_def)
  show "balancesOf (fst (settleVerified e now d ord res)) uid
         = (if filter (\<lambda>m. user_id m = merchant_id ord) (merchants d) \<noteq> []
               \<and> money ord - fee_money ord > 0 \<and> \<not> balance_added ord
               \<and> uid = merchant_id ord
            then map (\<lambda>b. b + (money ord - fee_money ord)) (balancesOf d uid)
            else balancesOf d uid)"
    unfolding sv balancesOf_def m3
    by (simp add: d2_def cb m1 balancesOf_credit)
  show "filter (\<lambda>m. user_id m \<noteq> merchant_id ord)
           (merchants (fst (settleVerified e now d ord res)))
         = filter (\<lambda>m. user_id m \<noteq> merchant_id ord) (merchants d)"
    unfolding sv m3
    by (simp add: d2_def cb m1 others_credit)
qed


lemma settleVerified_paid:
  "status ord \<noteq> 0 \<Longrightarrow> settleVerified e now d ord res = (d, [])"
  by (simp add: settleVerified_def)

lemma notifyRoute_cases:
  "fst (snd (notifyRoute e now d tn ps)) = d
   \<or> (\<exists>ord res. orderByTradeNo d tn = Some ord \<and> status ord = 0
         \<and> fst (snd (notifyRoute e now d tn ps)) = fst (settleVerified e now d ord res))"
proof (cases "orderByTradeNo d tn")
  case None
  then show ?thesis by (simp add: notifyRoute_def)
next
  case (Some ord)
  show ?thesis
  proof (cases "status ord = 0")
    case True
    show ?thesis
      using Some True
      by (auto simp: notifyRoute_def Let_def split: option.splits prod.splits)
  next
    case False
    have "fst (snd (notifyRoute e now d tn ps)) = d"
      using Some settleVerified_paid [OF False]
      by (simp add: notifyRoute_def Let_def split: option.splits)
    then show ?thesis by simp
  qed
qed

lemma returnRoute_cases:
  "fst (snd (returnRoute e now d tn ps)) = d
   \<or> (\<exists>ord res. orderByTradeNo d tn = Some ord \<and> status ord = 0
         \<and> fst (snd (returnRoute e now d tn ps)) = fst (settleVerified e now d ord res))"
proof (cases "orderByTradeNo d tn")
  case None
  then show ?thesis by (simp add: returnRoute_def)
next
  case (Some ord)
  show ?thesis
  proof (cases "status ord = 0")
    case True
    show ?thesis
      using Some True
      by (auto simp: returnRoute_def Let_def split: option.splits prod.splits)
  next
    case False
    have "fst (snd (returnRoute e now d tn ps)) = d"
      using Some settleVerified_paid [OF False]
      by (simp add: returnRoute_def Let_def split: option.splits)
    then show ?thesis by simp
  qed
qed

lemma deliver_cases:
  "deliver e now tn d dl = d
   \<or> (\<exists>ord res. orderByTradeNo d tn = Some ord \<and> status ord = 0
         \<and> deliver e now tn d dl = fst (settleVerified e now d ord res))"
  using notifyRoute_cases [of e now d tn] returnRoute_cases [of e now d tn]
  by (cases dl) (simp_all add: deliver_def)

lemma deliver_paid:
  assumes "orderByTradeNo d tn = Some ord" "status ord \<noteq> 0"
  shows "deliver e now tn d dl = d"
  using deliver_cases [of e now tn d dl] assms by auto

lemma deliveries_paid:
  assumes "orderByTradeNo d tn = Some ord" "status ord \<noteq> 0"
  shows "deliveries e now tn d dls = d"
  unfolding deliveries_def
  by (induction dls) (simp_all add: deliver_paid [OF assms])




lemma settleVerified_once:
  assumes "distinct (map o_id (orders d))" "orderByTradeNo d tn = Some ord" "status ord = 0"
    "\<not> balance_added ord"
    "filter (\<lambda>m. user_id m = merchant_id ord) (merchants d) \<noteq> []"
    "money ord - fee_money ord > 0"
  shows "paidAndCredited d (fst (settleVerified e now d ord res)) tn ord"
proof -
  note byId = byId_of_byTradeNo [OF assms(1,2)]
  note eff = settleVerified_effect [OF byId assms(2,3), of e now res]
  from eff(1) obtain ord1 where
    "orderByTradeNo (fst (settleVerified e now d ord res)) tn = Some ord1"
    "status ord1 = 1" "o_id ord1 = o_id ord" "balance_added ord1"
    using assms(5,6) by auto
  then show ?thesis
    unfolding paidAndCredited_def
    using eff(2) [of "merchant_id ord"] eff(3) assms(4,5,6) by simp
qed

lemma paidAndCredited_stable:
  assumes "paidAndCredited d d1 tn ord"
  shows "deliveries e now tn d1 dls = d1"
proof -
  from assms obtain ord1 where "orderByTradeNo d1 tn = Some ord1" "status ord1 = 1"
    by (auto simp: paidAndCredited_def split: option.splits)
  then show ?thesis
    using deliveries_paid [of d1 tn ord1 e now dls] by simp
qed

lemma deliver_once:
  assumes "distinct (map o_id (orders d))" "orderByTradeNo d tn = Some ord" "status ord = 0"
    "\<not> balance_added ord"
    "filter (\<lambda>m. user_id m = merchant_id ord) (merchants d) \<noteq> []"
    "money ord - fee_money ord > 0"
  shows "deliver e now tn d dl = d \<or> paidAndCredited d (deliver e now tn d dl) tn ord"
  using deliver_cases [of e now tn d dl] settleVerified_once [OF assms, of e now] assms(2)
  by auto

lemma deliveries_Cons:
  "deliveries e now tn d (dl # dls) = deliveries e now tn (deliver e now tn d dl) dls"
  by (simp add: deliveries_def)

lemma deliveries_once:
  assumes "distinct (map o_id (orders d))" "orderByTradeNo d tn = Some ord" "status ord = 0"
    "\<not> balance_added ord"
    "filter (\<lambda>m. user_id m = merchant_id ord) (merchants d) \<noteq> []"
    "money ord - fee_money ord > 0"
  shows "deliveries e now tn d dls = d \<or> paidAndCredited d (deliveries e now tn d dls) tn ord"
proof (induction dls)
  case Nil
  show ?case by (simp add: deliveries_def)
next
  case (Cons dl dls)
  from deliver_once [OF assms, of e now dl]
  show ?case
  proof
    assume "deliver e now tn d dl = d"
    then show ?thesis using Cons by (simp add: deliveries_Cons)
  next
    assume p: "paidAndCredited d (deliver e now tn d dl) tn ord"
    show ?thesis
      using p paidAndCredited_stable [OF p, of e now dls] by (simp add: deliveries_Cons)
  qed
qed


section \<open>Interleaved deliveries\<close>

lemma creditOnce_user_id:
  "filter (\<lambda>m. user_id m = u) (creditOnce ord0 ms) = [] \<longleftrightarrow> filter (\<lambda>m. user_id m = u) ms = []"
  by (induction ms) (simp_all add: creditOnce_def)

lemma rowInv_merchant:
  assumes "rowInv d0 ord0 d r"
  shows "filter (\<lambda>m. user_id m = u) (merchants d) = []
         \<longleftrightarrow> filter (\<lambda>m. user_id m = u) (merchants d0) = []"
  using assms by (simp add: rowInv_def creditOnce_user_id)

lemma reqInv_mono:
  assumes "reqInv ord0 r q" "status r = 1 \<longrightarrow> status r' = 1"
    "balance_added r \<longrightarrow> balance_added r'"
  shows "reqInv ord0 r' q"
  using assms by (cases q) auto

lemma step_Arrived:
  assumes "rowInv d0 ord0 d r" "orderByTradeNo d tn = Some r"
    "step e now tn d (Arrived dl) = (d', q')"
  shows "d' = d \<and> reqInv ord0 r q' \<and> \<not> working q'"
proof -
  have "ord = r" if "verifiedCallback e d tn dl = Some (ord, res)" for ord res
    using that assms(2)
    by (simp add: verifiedCallback_def split: option.splits if_splits)
  moreover have "o_id r = o_id ord0"
    using assms(1) by (simp add: rowInv_def sameColumns_def)
  ultimately show ?thesis
    using assms(3) by (auto split: option.splits)
qed

lemma step_Verified:
  assumes inv: "rowInv d0 ord0 d r" and tn: "orderByTradeNo d tn = Some r"
    and q: "reqInv ord0 r (Verified ord res)"
    and st: "step e now tn d (Verified ord res) = (d', q')"
  shows "\<exists>r'. orderByTradeNo d' tn = Some r' \<and> rowInv d0 ord0 d' r' \<and> reqInv ord0 r' q'
           \<and> (status r = 1 \<longrightarrow> status r' = 1) \<and> (balance_added r \<longleftrightarrow> balance_added r')
           \<and> (status r' = 1 \<and> status r \<noteq> 1 \<longrightarrow> working q')"
proof (cases "status ord = 0")
  case False
  then have "d' = d" "q' = Finished" using st by simp_all
  then show ?thesis using inv tn by auto
next
  case True
  define paid where "paid = r\<lparr>status := 1, paid_at := Some now,
                       api_trade_no := orNull (res_api_trade_no res),
                       buyer := orNull (res_buyer res)\<rparr>"
  have id: "o_id ord = o_id ord0" using q by simp
  have idr: "o_id r = o_id ord0" using inv by (simp add: rowInv_def sameColumns_def)
  have d': "d' = markPaid now d ord res" and q': "q' = Marked ord"
    using st True by simp_all
  have f: "filter (\<lambda>x. o_id x = o_id ord0) (orders d') = [paid]"
    using inv unfolding d' by (simp add: markPaid_byId id rowInv_def paid_def)
  have t0: "first (filter (\<lambda>r. trade_no r = tn) (orders d)) = Some r"
    using tn by (simp add: orderByTradeNo_def)
  have t: "orderByTradeNo d' tn = Some paid"
    unfolding d' markPaid_def orderByTradeNo_def
    by (simp add: orderByTradeNo_upd t0 paid_def id idr)
  have m: "merchants d' = merchants d"
    unfolding d' by (simp add: markPaid_def)
  have ri: "rowInv d0 ord0 d' paid"
    using inv f m by (simp add: rowInv_def paid_def sameColumns_def)
  show ?thesis
    using t ri q' id by (auto simp: paid_def)
qed

lemma step_Marked:
  assumes inv: "rowInv d0 ord0 d r"
    and q: "reqInv ord0 r (Marked ord)"
    and st: "step e now tn d (Marked ord) = (d', q')"
  shows "d' = d \<and> reqInv ord0 r q' \<and> working q'"
proof -
  have "first (filter (\<lambda>x. o_id x = o_id ord) (orders d)) = Some r"
    using inv q by (simp add: rowInv_def first_def)
  then have "q' = Reread r" "d' = d" using st by auto
  then show ?thesis using inv q by (simp add: rowInv_def)
qed

lemma step_Reread:
  assumes inv: "rowInv d0 ord0 d r"
    and q: "reqInv ord0 r (Reread ord)"
    and st: "step e now tn d (Reread ord) = (d', q')"
  shows "d' = d \<and> reqInv ord0 r q' \<and> (creditDue d0 ord0 \<longrightarrow> working q')"
proof -
  have mid: "merchant_id ord = merchant_id ord0"
    using q by (simp add: sameColumns_def)
  show ?thesis
    using st q rowInv_merchant [OF inv, of "merchant_id ord0"]
    by (auto simp: mid creditDue_def split: if_splits)
qed

lemma step_Crediting:
  assumes inv: "rowInv d0 ord0 d r" and tn: "orderByTradeNo d tn = Some r"
    and q: "reqInv ord0 r (Crediting ord)"
    and st: "step e now tn d (Crediting ord) = (d', q')"
  shows "\<exists>r'. orderByTradeNo d' tn = Some r' \<and> rowInv d0 ord0 d' r' \<and> reqInv ord0 r' q'
           \<and> status r' = status r \<and> (balance_added r \<longrightarrow> balance_added r')
           \<and> (creditDue d0 ord0 \<longrightarrow> balance_added r')"
proof -
  have sc: "o_id ord = o_id ord0" "merchant_id ord = merchant_id ord0"
    "money ord = money ord0" "fee_money ord = fee_money ord0" and s1: "status r = 1"
    using q by (simp_all add: sameColumns_def)
  have idr: "o_id r = o_id ord0" using inv by (simp add: rowInv_def sameColumns_def)
  have f: "filter (\<lambda>x. o_id x = o_id ord) (orders d) = r # []"
    using inv by (simp add: rowInv_def sc)
  have q': "q' = Notifying ord" using st by (simp add: Let_def)
  show ?thesis
  proof (cases "money ord0 - fee_money ord0 > 0 \<and> \<not> balance_added r")
    case False
    have "d' = d"
    proof (cases "money ord0 - fee_money ord0 > 0")
      case True
      then have "balance_added r" using False by simp
      from creditBalance_flagged [OF f this] True st show ?thesis
        by (simp add: Let_def sc)
    next
      case False
      then show ?thesis using st by (simp add: Let_def sc)
    qed
    then show ?thesis
      using inv tn q q' False by (auto simp: creditDue_def)
  next
    case True
    define fl where "fl = r\<lparr>balance_added := True\<rparr>"
    have d': "d' = d\<lparr>merchants :=
                map (\<lambda>m. if user_id m = merchant_id ord
                         then m\<lparr>balance := balance m + (money ord0 - fee_money ord0)\<rparr> else m)
                    (merchants d),
             orders :=
                map (\<lambda>r. if o_id r = o_id ord then r\<lparr>balance_added := True\<rparr> else r)
                    (orders d)\<rparr>"
      using st True creditBalance_unflagged [OF f, of "money ord0 - fee_money ord0"]
      by (simp add: Let_def sc)
    have f': "filter (\<lambda>x. o_id x = o_id ord0) (orders d') = [fl]"
      using inv unfolding d' by (simp add: filter_id_upd sc rowInv_def fl_def)
    have t0: "first (filter (\<lambda>r. trade_no r = tn) (orders d)) = Some r"
      using tn by (simp add: orderByTradeNo_def)
    have t: "orderByTradeNo d' tn = Some fl"
      unfolding d' orderByTradeNo_def
      by (simp add: orderByTradeNo_upd t0 fl_def sc idr)
    have m: "merchants d' = creditOnce ord0 (merchants d0)"
      using inv True unfolding d' by (simp add: rowInv_def creditOnce_def sc)
    have ri: "rowInv d0 ord0 d' fl"
      using inv f' m s1 True by (simp add: rowInv_def fl_def sameColumns_def)
    show ?thesis
      using t ri q' q by (auto simp: fl_def)
  qed
qed

lemma step_Notifying:
  assumes inv: "rowInv d0 ord0 d r" and tn: "orderByTradeNo d tn = Some r"
    and q: "reqInv ord0 r (Notifying ord)"
    and st: "step e now tn d (Notifying ord) = (d', q')"
  shows "\<exists>r'. orderByTradeNo d' tn = Some r' \<and> rowInv d0 ord0 d' r' \<and> q' = Finished
           \<and> status r' = status r \<and> (balance_added r \<longleftrightarrow> balance_added r')"
proof (cases "truthy (notify_url ord)")
  case False
  then show ?thesis using st inv tn by auto
next
  case True
  define g where "g = (\<lambda>r::order. r\<lparr>notify_status := (if sendNotify e (notify_url ord) ord then 1 else 2),
                                  notify_count := notify_count r + 1,
                                  notify_time := Some now\<rparr>)"
  have sc: "o_id ord = o_id ord0" using q by (simp add: sameColumns_def)
  have idr: "o_id r = o_id ord0" using inv by (simp add: rowInv_def sameColumns_def)
  have d': "d' = d\<lparr>orders := map (\<lambda>r. if o_id r = o_id ord then g r else r) (orders d)\<rparr>"
    and q': "q' = Finished"
    unfolding g_def using st True by (auto simp: Let_def)
  have g: "o_id (g x) = o_id x" "trade_no (g x) = trade_no x" for x
    by (simp_all add: g_def)
  have f': "filter (\<lambda>x. o_id x = o_id ord0) (orders d') = [g r]"
    using inv unfolding d' by (simp add: filter_id_upd g sc rowInv_def)
  have t0: "first (filter (\<lambda>r. trade_no r = tn) (orders d)) = Some r"
    using tn by (simp add: orderByTradeNo_def)
  have t: "orderByTradeNo d' tn = Some (g r)"
    unfolding d' orderByTradeNo_def
    by (simp add: orderByTradeNo_upd g t0 sc idr)
  have m: "merchants d' = merchants d"
    unfolding d' by simp
  have ri: "rowInv d0 ord0 d' (g r)"
    using inv f' m by (simp add: rowInv_def g_def sameColumns_def)
  show ?thesis
    using t ri q' by (auto simp: g_def)
qed


lemma step_inv:
  assumes inv: "rowInv d0 ord0 d r" and tn: "orderByTradeNo d tn = Some r"
    and q: "reqInv ord0 r q"
    and st: "step e now tn d q = (d', q')"
  shows "\<exists>r'. orderByTradeNo d' tn = Some r' \<and> rowInv d0 ord0 d' r' \<and> reqInv ord0 r' q'
           \<and> (status r = 1 \<longrightarrow> status r' = 1) \<and> (balance_added r \<longrightarrow> balance_added r')
           \<and> (status r' = 1 \<and> status r \<noteq> 1 \<longrightarrow> working q')
           \<and> (creditDue d0 ord0 \<and> working q \<and> \<not> working q' \<longrightarrow> balance_added r')"
proof (cases q)
  case (Arrived dl)
  from step_Arrived [OF inv tn st [unfolded Arrived]] show ?thesis
    using inv tn Arrived by auto
next
  case (Verified ord res)
  from step_Verified [OF inv tn q [unfolded Verified] st [unfolded Verified]] show ?thesis
    using Verified by auto
next
  case (Marked ord)
  from step_Marked [OF inv q [unfolded Marked] st [unfolded Marked]] show ?thesis
    using inv tn by auto
next
  case (Reread ord)
  from step_Reread [OF inv q [unfolded Reread] st [unfolded Reread]] show ?thesis
    using inv tn by auto
next
  case (Crediting ord)
  from step_Crediting [OF inv tn q [unfolded Crediting] st [unfolded Crediting]] show ?thesis
    by auto
next
  case (Notifying ord)
  from step_Notifying [OF inv tn q [unfolded Notifying] st [unfolded Notifying]] show ?thesis
    using Notifying by auto
next
  case Finished
  then show ?thesis using st inv tn by auto
qed

lemma list_all_update:
  assumes "list_all P xs" "P y"
  shows "list_all P (xs[i := y])"
  using assms set_update_subset_insert [of xs i y] by (auto simp: list_all_iff)

lemma list_ex_update:
  assumes "list_ex P xs" "i < length xs" "P (xs ! i) \<longrightarrow> P y"
  shows "list_ex P (xs[i := y])"
proof -
  from assms(1) obtain j where j: "j < length xs" "P (xs ! j)"
    by (auto simp: list_ex_iff in_set_conv_nth)
  have "j < length (xs[i := y])" "P (xs[i := y] ! j)"
    using j assms(2,3) by (cases "j = i", simp_all)+
  then have "xs[i := y] ! j \<in> set (xs[i := y])" "P (xs[i := y] ! j)"
    using nth_mem by blast+
  then show ?thesis
    unfolding list_ex_iff by blast
qed

lemma list_ex_update_new:
  assumes "i < length xs" "P y"
  shows "list_ex P (xs[i := y])"
  using assms set_update_memI [of i xs y] by (auto simp: list_ex_iff)

lemma stepAt_inv:
  assumes "sysInv d0 ord0 tn st"
  shows "sysInv d0 ord0 tn (stepAt e now tn st i)
         \<and> (\<exists>r r'. orderByTradeNo (fst st) tn = Some r
               \<and> orderByTradeNo (fst (stepAt e now tn st i)) tn = Some r'
               \<and> (status r = 1 \<longrightarrow> status r' = 1)
               \<and> (balance_added r \<longrightarrow> balance_added r'))"
proof -
  obtain d rs where st: "st = (d, rs)" by (cases st)
  from assms obtain r where tn: "orderByTradeNo d tn = Some r"
    and inv: "rowInv d0 ord0 d r" and all: "list_all (reqInv ord0 r) rs"
    and due: "creditDue d0 ord0 \<and> status r = 1 \<longrightarrow> balance_added r \<or> list_ex working rs"
    by (auto simp: sysInv_def st split: option.splits)
  show ?thesis
  proof (cases "i < length rs")
    case False
    then have "stepAt e now tn st i = st" by (simp add: stepAt_def st)
    then show ?thesis using assms tn st by auto
  next
    case True
    obtain d' q' where s: "step e now tn d (rs ! i) = (d', q')"
      by (cases "step e now tn d (rs ! i)")
    have sa: "stepAt e now tn (d, rs) i = (d', rs[i := q'])"
      using True s by (simp add: stepAt_def)
    have qi: "reqInv ord0 r (rs ! i)"
      using all True by (simp add: list_all_length)
    from step_inv [OF inv tn qi s] obtain r' where
      tn': "orderByTradeNo d' tn = Some r'" and inv': "rowInv d0 ord0 d' r'"
      and q': "reqInv ord0 r' q'"
      and m1: "status r = 1 \<longrightarrow> status r' = 1" and m2: "balance_added r \<longrightarrow> balance_added r'"
      and w1: "status r' = 1 \<and> status r \<noteq> 1 \<longrightarrow> working q'"
      and w2: "creditDue d0 ord0 \<and> working (rs ! i) \<and> \<not> working q' \<longrightarrow> balance_added r'"
      by blast
    have all0: "list_all (reqInv ord0 r') rs"
      using all reqInv_mono [OF _ m1 m2] by (auto simp: list_all_iff)
    have all': "list_all (reqInv ord0 r') (rs[i := q'])"
      by (rule list_all_update [OF all0 q'])
    have due': "balance_added r' \<or> list_ex working (rs[i := q'])"
      if c: "creditDue d0 ord0" and s1: "status r' = 1"
    proof (cases "status r = 1")
      case False
      then have "working q'" using w1 s1 by simp
      then show ?thesis using list_ex_update_new [OF True] by blast
    next
      case st1: True
      show ?thesis
      proof (cases "balance_added r")
        case True
        then show ?thesis using m2 by simp
      next
        case False
        then have ex: "list_ex working rs" using due c st1 by simp
        show ?thesis
        proof (cases "working (rs ! i) \<and> \<not> working q'")
          case True
          then show ?thesis using w2 c by simp
        next
          case False
          then have "working (rs ! i) \<longrightarrow> working q'" by simp
          from list_ex_update [OF ex \<open>i < length rs\<close> this] show ?thesis by simp
        qed
      qed
    qed
    have "sysInv d0 ord0 tn (d', rs[i := q'])"
      using tn' inv' all' due' by (auto simp: sysInv_def)
    then show ?thesis
      using tn tn' m1 m2 by (auto simp: sa st)
  qed
qed

lemma run_Cons:
  "run e now tn st (i # schedule) = run e now tn (stepAt e now tn st i) schedule"
  by (simp add: run_def)

lemma run_append:
  "run e now tn st (s1 @ s2) = run e now tn (run e now tn st s1) s2"
  by (simp add: run_def)

lemma run_inv:
  assumes "sysInv d0 ord0 tn st"
  shows "sysInv d0 ord0 tn (run e now tn st schedule)
         \<and> (\<exists>r r'. orderByTradeNo (fst st) tn = Some r
               \<and> orderByTradeNo (fst (run e now tn st schedule)) tn = Some r'
               \<and> (status r = 1 \<longrightarrow> status r' = 1)
               \<and> (balance_added r \<longrightarrow> balance_added r'))"
  using assms
proof (induction schedule arbitrary: st)
  case Nil
  then show ?case
    by (cases st) (auto simp: run_def sysInv_def split: option.splits)
next
  case (Cons i schedule)
  note a = stepAt_inv [OF Cons.prems, of e now i]
  note b = Cons.IH [OF a [THEN conjunct1]]
  from a b show ?case
    unfolding run_Cons by (metis option.inject)
qed

lemma sysInv_initial:
  assumes "distinct (map o_id (orders d))" "orderByTradeNo d tn = Some ord"
    "status ord = 0" "\<not> balance_added ord"
  shows "sysInv d ord tn (d, map Arrived dls)"
  using assms byId_of_byTradeNo [OF assms(1,2)]
  by (simp add: sysInv_def rowInv_def sameColumns_def list_all_iff)

lemma rowInv_paidAndCredited:
  assumes "rowInv d0 ord0 d r" "orderByTradeNo d tn = Some r" "balance_added r"
  shows "paidAndCredited d0 d tn ord0"
  using assms
  by (simp add: paidAndCredited_def rowInv_def sameColumns_def balancesOf_def creditOnce_def
        balancesOf_credit others_credit)


lemma deliver_verifiedCallback:
  "deliver e now tn d dl =
     (case verifiedCallback e d tn dl of
        None \<Rightarrow> d
      | Some (ord, res) \<Rightarrow> fst (settleVerified e now d ord res))"
  by (cases dl)
     (simp_all add: deliver_def notifyRoute_def returnRoute_def verifiedCallback_def Let_def
        split: option.splits prod.splits)

lemma stepAt_single:
  "stepAt e now tn (d, [q]) 0 = (fst (step e now tn d q), [snd (step e now tn d q)])"
  by (simp add: stepAt_def split: prod.splits)

lemma run_Finished:
  "run e now tn (d, [Finished]) schedule = (d, [Finished])"
  by (induction schedule) (simp_all add: run_def stepAt_def)

lemma run_alone:
  "run e now tn (d, [Arrived dl]) [0, 0, 0, 0, 0, 0] = (deliver e now tn d dl, [Finished])"
proof (cases "verifiedCallback e d tn dl")
  case None
  then show ?thesis
    by (simp add: deliver_verifiedCallback run_Cons stepAt_single run_Finished)
next
  case (Some a)
  obtain ord res where a: "a = (ord, res)" by (cases a)
  show ?thesis
  proof (cases "status ord = 0")
    case False
    then show ?thesis
      using Some a
      by (simp add: deliver_verifiedCallback settleVerified_paid run_Cons stepAt_single
            run_Finished)
  next
    case True
    show ?thesis
      using Some a True
      by (simp add: deliver_verifiedCallback settleVerified_def sendDownstreamNotify_def
            run_Cons stepAt_single run_Finished Let_def run_def
            split: option.splits)
  qed
qed

lemma run_safe:
  assumes "distinct (map o_id (orders d))" "orderByTradeNo d tn = Some ord"
    "status ord = 0" "\<not> balance_added ord"
  shows "merchants (fst (run e now tn (d, map Arrived dls) schedule)) = merchants d
         \<or> paidAndCredited d (fst (run e now tn (d, map Arrived dls) schedule)) tn ord"
proof -
  obtain d' rs' where r: "run e now tn (d, map Arrived dls) schedule = (d', rs')"
    by (cases "run e now tn (d, map Arrived dls) schedule")
  from run_inv [OF sysInv_initial [OF assms, of dls], of e now schedule, THEN conjunct1]
  obtain r' where tn': "orderByTradeNo d' tn = Some r'" and inv: "rowInv d ord d' r'"
    by (auto simp: r sysInv_def split: option.splits)
  show ?thesis
  proof (cases "balance_added r'")
    case True
    from rowInv_paidAndCredited [OF inv tn' True] show ?thesis by (simp add: r)
  next
    case False
    then show ?thesis using inv by (simp add: r rowInv_def)
  qed
qed

lemma run_stable:
  assumes "distinct (map o_id (orders d))" "orderByTradeNo d tn = Some ord"
    "status ord = 0" "\<not> balance_added ord"
  shows "(paidAndCredited d (fst (run e now tn (d, map Arrived dls) s1)) tn ord
          \<longrightarrow> paidAndCredited d (fst (run e now tn (d, map Arrived dls) (s1 @ s2))) tn ord)
       \<and> (map_option status (orderByTradeNo (fst (run e now tn (d, map Arrived dls) s1)) tn)
            = Some 1
          \<longrightarrow> map_option status
                (orderByTradeNo (fst (run e now tn (d, map Arrived dls) (s1 @ s2))) tn)
              = Some 1)"
proof -
  define st1 where "st1 = run e now tn (d, map Arrived dls) s1"
  define st2 where "st2 = run e now tn st1 s2"
  have i1: "sysInv d ord tn st1"
    unfolding st1_def
    by (rule run_inv [OF sysInv_initial [OF assms, of dls], THEN conjunct1])
  from run_inv [OF i1, of e now s2] obtain r1 r2 where
    i2: "sysInv d ord tn st2"
    and t1: "orderByTradeNo (fst st1) tn = Some r1"
    and t2: "orderByTradeNo (fst st2) tn = Some r2"
    and m1: "status r1 = 1 \<longrightarrow> status r2 = 1"
    and m2: "balance_added r1 \<longrightarrow> balance_added r2"
    unfolding st2_def by blast
  have inv2: "rowInv d ord (fst st2) r2"
    using i2 t2 by (cases st2) (simp add: sysInv_def)
  have a: "paidAndCredited d (fst st2) tn ord" if "paidAndCredited d (fst st1) tn ord"
  proof -
    have "balance_added r1" using that t1 by (simp add: paidAndCredited_def)
    then have "balance_added r2" using m2 by simp
    from rowInv_paidAndCredited [OF inv2 t2 this] show ?thesis .
  qed
  have b: "map_option status (orderByTradeNo (fst st2) tn) = Some 1"
    if "map_option status (orderByTradeNo (fst st1) tn) = Some 1"
    using that t1 t2 m1 by simp
  have e: "run e now tn (d, map Arrived dls) (s1 @ s2) = st2"
    by (simp add: run_append st1_def st2_def)
  show ?thesis
    unfolding e st1_def [symmetric] using a b by blast
qed

lemma run_complete:
  assumes "distinct (map o_id (orders d))" "orderByTradeNo d tn = Some ord"
    "status ord = 0" "\<not> balance_added ord"
    "filter (\<lambda>m. user_id m = merchant_id ord) (merchants d) \<noteq> []"
    "money ord - fee_money ord > 0"
    "snd (run e now tn (d, map Arrived dls) schedule) = replicate (length dls) Finished"
  shows "(map_option status (orderByTradeNo (fst (run e now tn (d, map Arrived dls) schedule)) tn)
            = Some 0
          \<and> merchants (fst (run e now tn (d, map Arrived dls) schedule)) = merchants d)
         \<or> paidAndCredited d (fst (run e now tn (d, map Arrived dls) schedule)) tn ord"
proof -
  obtain d' rs' where r: "run e now tn (d, map Arrived dls) schedule = (d', rs')"
    by (cases "run e now tn (d, map Arrived dls) schedule")
  have rs': "rs' = replicate (length dls) Finished"
    using assms(7) by (simp add: r)
  have nw: "\<not> list_ex working rs'"
    by (simp add: rs' list_ex_iff)
  have due: "creditDue d ord"
    using assms(5,6) by (simp add: creditDue_def)
  from run_inv [OF sysInv_initial [OF assms(1-4), of dls], of e now schedule, THEN conjunct1]
  obtain r' where tn': "orderByTradeNo d' tn = Some r'" and inv: "rowInv d ord d' r'"
    and c: "creditDue d ord \<and> status r' = 1 \<longrightarrow> balance_added r' \<or> list_ex working rs'"
    by (auto simp: r sysInv_def split: option.splits)
  show ?thesis
  proof (cases "status r' = 1")
    case True
    then have "balance_added r'" using c due nw by simp
    from rowInv_paidAndCredited [OF inv tn' this] show ?thesis by (simp add: r)
  next
    case False
    then have "status r' = 0" "\<not> balance_added r'"
      using inv assms(3) by (auto simp: rowInv_def)
    then show ?thesis using inv tn' by (simp add: r rowInv_def)
  qed
qed


lemma step_stepsLeft:
  "stepsLeft (snd (step e now tn d q)) \<le> stepsLeft q - 1"
  by (cases q) (simp_all add: Let_def split: option.splits prod.splits)

lemma stepAt_stepsLeft:
  "length (snd (stepAt e now tn st i)) = length (snd st)
   \<and> (\<forall>j < length (snd st).
        stepsLeft (snd (stepAt e now tn st i) ! j)
        \<le> stepsLeft (snd st ! j) - (if j = i then 1 else 0))"
proof -
  obtain d rs where st: "st = (d, rs)" by (cases st)
  show ?thesis
  proof (cases "i < length rs")
    case False
    then show ?thesis by (simp add: stepAt_def st)
  next
    case True
    obtain d' q' where s: "step e now tn d (rs ! i) = (d', q')"
      by (cases "step e now tn d (rs ! i)")
    have "stepsLeft q' \<le> stepsLeft (rs ! i) - 1"
      using step_stepsLeft [of e now tn d "rs ! i"] by (simp add: s)
    then show ?thesis
      using True by (simp add: stepAt_def st s nth_list_update)
  qed
qed

lemma run_stepsLeft:
  "length (snd (run e now tn st schedule)) = length (snd st)
   \<and> (\<forall>j < length (snd st).
        stepsLeft (snd (run e now tn st schedule) ! j)
        \<le> stepsLeft (snd st ! j) - count_list schedule j)"
proof (induction schedule arbitrary: st)
  case Nil
  show ?case by (simp add: run_def)
next
  case (Cons i schedule)
  note a = stepAt_stepsLeft [of e now tn st i]
  note b = Cons.IH [of "stepAt e now tn st i"]
  have len: "length (snd (run e now tn st (i # schedule))) = length (snd st)"
    using a b by (simp add: run_Cons)
  have "stepsLeft (snd (run e now tn st (i # schedule)) ! j)
        \<le> stepsLeft (snd st ! j) - count_list (i # schedule) j"
    if j: "j < length (snd st)" for j
  proof -
    have "stepsLeft (snd (stepAt e now tn st i) ! j)
            \<le> stepsLeft (snd st ! j) - (if j = i then 1 else 0)"
      using a j by blast
    moreover have "stepsLeft (snd (run e now tn (stepAt e now tn st i) schedule) ! j)
            \<le> stepsLeft (snd (stepAt e now tn st i) ! j) - count_list schedule j"
      using a b j by simp
    ultimately show ?thesis
      by (auto simp: run_Cons)
  qed
  then show ?case using len by blast
qed

lemma stepsLeft_0: "stepsLeft q = 0 \<Longrightarrow> q = Finished"
  by (cases q) simp_all

lemma run_finishes:
  assumes "list_all (\<lambda>i. 6 \<le> count_list schedule i) [0..<length dls]"
  shows "snd (run e now tn (d, map Arrived dls) schedule) = replicate (length dls) Finished"
proof (rule nth_equalityI)
  note r = run_stepsLeft [of e now tn "(d, map Arrived dls)" schedule]
  show "length (snd (run e now tn (d, map Arrived dls) schedule))
        = length (replicate (length dls) Finished)"
    using r by simp
  fix j
  assume "j < length (snd (run e now tn (d, map Arrived dls) schedule))"
  then have j: "j < length dls" using r by simp
  then have "6 \<le> count_list schedule j"
    using assms by (simp add: list_all_iff)
  moreover have "stepsLeft (snd (run e now tn (d, map Arrived dls) schedule) ! j)
                 \<le> 6 - count_list schedule j"
    using r j by auto
  ultimately have "stepsLeft (snd (run e now tn (d, map Arrived dls) schedule) ! j) = 0"
    by simp
  then show "snd (run e now tn (d, map Arrived dls) schedule) ! j
             = replicate (length dls) Finished ! j"
    using j by (simp add: stepsLeft_0)
qed

lemma verifiedCallback_order:
  assumes "verifiedCallback e d tn dl = Some (ord', res)" "orderByTradeNo d tn = Some ord"
  shows "ord' = ord"
  using assms by (simp add: verifiedCallback_def split: option.splits if_splits)

text \<open>
  C1: deliveries for one trade number, on either transport.

  Processed one after the other: a delivery for an order that is no longer pending
  changes nothing, so neither the status nor any balance moves again, and a delivery
  changes the database only if it finds the order pending. For a pending, not yet
  credited order of an existing merchant with \<open>money - fee_money > 0\<close>, any sequence of
  deliveries ends either in the unchanged database (none was verified) or in a database
  where the order is paid and flagged \<open>balance_added\<close>, the merchant's balance is the
  old one plus \<open>money - fee_money\<close> and every other merchant row is unchanged; it ends
  in the latter as soon as the first delivery is verified by the channel's plugin,
  whatever follows. The credit looks at the \<open>balance_added\<close> flag only: on a flagged
  row it changes nothing, whatever the status of the order it is given.

  Running together, under every schedule of their steps: a request alone, run to its
  end, is the delivery above; the merchants are at every moment either untouched or
  credited exactly once for a paid and flagged order; once the order is paid it stays
  paid, and once it is paid and credited it stays so with the same balances; and when
  all requests have finished, the order is either still pending with the merchants
  untouched, or paid and credited once. Every request has finished once the schedule
  has given it six steps.
\<close>

theorem paid_once_credited_once:
  "(orderByTradeNo d tn = Some ord \<and> status ord \<noteq> 0 \<longrightarrow> deliveries e now tn d dls = d)
   \<and> (deliver e now tn d dl \<noteq> d \<longrightarrow> (\<exists>r. orderByTradeNo d tn = Some r \<and> status r = 0))
   \<and> (pendingOrder d tn ord \<and> creditDue d ord
      \<longrightarrow> (deliveries e now tn d dls = d
           \<or> paidAndCredited d (deliveries e now tn d dls) tn ord)
          \<and> (verifiedCallback e d tn dl \<noteq> None
              \<longrightarrow> paidAndCredited d (deliveries e now tn d (dl # dls)) tn ord
                  \<and> deliveries e now tn d (dl # dls) = deliver e now tn d dl))
   \<and> (filter (\<lambda>r. o_id r = o_id ord) (orders d) = oc # rest \<and> balance_added oc
      \<longrightarrow> creditBalance d ord s = d
          \<and> merchants (fst (sendDownstreamNotify e now d ord)) = merchants d)
   \<and> run e now tn (d, [Arrived dl]) [0, 0, 0, 0, 0, 0] = (deliver e now tn d dl, [Finished])
   \<and> (pendingOrder d tn ord
      \<longrightarrow> (merchants (fst (run e now tn (d, map Arrived dls) schedule)) = merchants d
           \<or> paidAndCredited d (fst (run e now tn (d, map Arrived dls) schedule)) tn ord)
          \<and> (paidAndCredited d (fst (run e now tn (d, map Arrived dls) schedule)) tn ord
              \<longrightarrow> paidAndCredited d
                    (fst (run e now tn (d, map Arrived dls) (schedule @ later))) tn ord)
          \<and> (map_option status
                (orderByTradeNo (fst (run e now tn (d, map Arrived dls) schedule)) tn) = Some 1
              \<longrightarrow> map_option status
                    (orderByTradeNo
                       (fst (run e now tn (d, map Arrived dls) (schedule @ later))) tn)
                  = Some 1))
   \<and> (pendingOrder d tn ord \<and> creditDue d ord
        \<and> snd (run e now tn (d, map Arrived dls) schedule) = replicate (length dls) Finished
      \<longrightarrow> (map_option status
             (orderByTradeNo (fst (run e now tn (d, map Arrived dls) schedule)) tn) = Some 0
           \<and> merchants (fst (run e now tn (d, map Arrived dls) schedule)) = merchants d)
          \<or> paidAndCredited d (fst (run e now tn (d, map Arrived dls) schedule)) tn ord)
   \<and> (list_all (\<lambda>i. 6 \<le> count_list schedule i) [0..<length dls]
      \<longrightarrow> snd (run e now tn (d, map Arrived dls) schedule) = replicate (length dls) Finished)"
proof -
  have p1: "orderByTradeNo d tn = Some ord \<and> status ord \<noteq> 0 \<longrightarrow> deliveries e now tn d dls = d"
    using deliveries_paid by blast
  have p2: "deliver e now tn d dl \<noteq> d \<longrightarrow> (\<exists>r. orderByTradeNo d tn = Some r \<and> status r = 0)"
    using deliver_cases [of e now tn d dl] by blast
  have p3: "pendingOrder d tn ord \<and> creditDue d ord
      \<longrightarrow> (deliveries e now tn d dls = d
           \<or> paidAndCredited d (deliveries e now tn d dls) tn ord)
          \<and> (verifiedCallback e d tn dl \<noteq> None
              \<longrightarrow> paidAndCredited d (deliveries e now tn d (dl # dls)) tn ord
                  \<and> deliveries e now tn d (dl # dls) = deliver e now tn d dl)"
  proof (intro impI conjI)
    assume h: "pendingOrder d tn ord \<and> creditDue d ord"
    then have hs: "distinct (map o_id (orders d))" "orderByTradeNo d tn = Some ord"
      "status ord = 0" "\<not> balance_added ord"
      "filter (\<lambda>m. user_id m = merchant_id ord) (merchants d) \<noteq> []"
      "money ord - fee_money ord > 0"
      by (simp_all add: pendingOrder_def creditDue_def)
    show "deliveries e now tn d dls = d \<or> paidAndCredited d (deliveries e now tn d dls) tn ord"
      by (rule deliveries_once [OF hs])
    assume v: "verifiedCallback e d tn dl \<noteq> None"
    then obtain ord' res where vc: "verifiedCallback e d tn dl = Some (ord', res)"
      by auto
    have "ord' = ord" by (rule verifiedCallback_order [OF vc hs(2)])
    then have "deliver e now tn d dl = fst (settleVerified e now d ord res)"
      using vc by (simp add: deliver_verifiedCallback)
    then have p: "paidAndCredited d (deliver e now tn d dl) tn ord"
      using settleVerified_once [OF hs, of e now res] by simp
    have st: "deliveries e now tn d (dl # dls) = deliver e now tn d dl"
      using paidAndCredited_stable [OF p, of e now dls] by (simp add: deliveries_Cons)
    show "paidAndCredited d (deliveries e now tn d (dl # dls)) tn ord"
      using p st by simp
    show "deliveries e now tn d (dl # dls) = deliver e now tn d dl"
      by (rule st)
  qed
  have p4: "filter (\<lambda>r. o_id r = o_id ord) (orders d) = oc # rest \<and> balance_added oc
      \<longrightarrow> creditBalance d ord s = d
          \<and> merchants (fst (sendDownstreamNotify e now d ord)) = merchants d"
    by (simp add: sendDownstreamNotify_merchants creditBalance_def)
  have p5: "run e now tn (d, [Arrived dl]) [0, 0, 0, 0, 0, 0] = (deliver e now tn d dl, [Finished])"
    by (rule run_alone)
  have p6: "pendingOrder d tn ord
      \<longrightarrow> (merchants (fst (run e now tn (d, map Arrived dls) schedule)) = merchants d
           \<or> paidAndCredited d (fst (run e now tn (d, map Arrived dls) schedule)) tn ord)
          \<and> (paidAndCredited d (fst (run e now tn (d, map Arrived dls) schedule)) tn ord
              \<longrightarrow> paidAndCredited d
                    (fst (run e now tn (d, map Arrived dls) (schedule @ later))) tn ord)
          \<and> (map_option status
                (orderByTradeNo (fst (run e now tn (d, map Arrived dls) schedule)) tn) = Some 1
              \<longrightarrow> map_option status
                    (orderByTradeNo
                       (fst (run e now tn (d, map Arrived dls) (schedule @ later))) tn)
                  = Some 1)"
  proof
    assume "pendingOrder d tn ord"
    then have hs: "distinct (map o_id (orders d))" "orderByTradeNo d tn = Some ord"
      "status ord = 0" "\<not> balance_added ord"
      by (simp_all add: pendingOrder_def)
    from run_safe [OF hs, of e now dls schedule] run_stable [OF hs, of e now dls schedule later]
    show "(merchants (fst (run e now tn (d, map Arrived dls) schedule)) = merchants d
           \<or> paidAndCredited d (fst (run e now tn (d, map Arrived dls) schedule)) tn ord)
          \<and> (paidAndCredited d (fst (run e now tn (d, map Arrived dls) schedule)) tn ord
              \<longrightarrow> paidAndCredited d
                    (fst (run e now tn (d, map Arrived dls) (schedule @ later))) tn ord)
          \<and> (map_option status
                (orderByTradeNo (fst (run e now tn (d, map Arrived dls) schedule)) tn) = Some 1
              \<longrightarrow> map_option status
                    (orderByTradeNo
                       (fst (run e now tn (d, map Arrived dls) (schedule @ later))) tn)
                  = Some 1)"
      by blast
  qed
  have p7: "pendingOrder d tn ord \<and> creditDue d ord
        \<and> snd (run e now tn (d, map Arrived dls) schedule) = replicate (length dls) Finished
      \<longrightarrow> (map_option status
             (orderByTradeNo (fst (run e now tn (d, map Arrived dls) schedule)) tn) = Some 0
           \<and> merchants (fst (run e now tn (d, map Arrived dls) schedule)) = merchants d)
          \<or> paidAndCredited d (fst (run e now tn (d, map Arrived dls) schedule)) tn ord"
  proof
    assume h: "pendingOrder d tn ord \<and> creditDue d ord
        \<and> snd (run e now tn (d, map Arrived dls) schedule) = replicate (length dls) Finished"
    then have hs: "distinct (map o_id (orders d))" "orderByTradeNo d tn = Some ord"
      "status ord = 0" "\<not> balance_added ord"
      "filter (\<lambda>m. user_id m = merchant_id ord) (merchants d) \<noteq> []"
      "money ord - fee_money ord > 0"
      "snd (run e now tn (d, map Arrived dls) schedule) = replicate (length dls) Finished"
      by (simp_all add: pendingOrder_def creditDue_def)
    show "(map_option status
             (orderByTradeNo (fst (run e now tn (d, map Arrived dls) schedule)) tn) = Some 0
           \<and> merchants (fst (run e now tn (d, map Arrived dls) schedule)) = merchants d)
          \<or> paidAndCredited d (fst (run e now tn (d, map Arrived dls) schedule)) tn ord"
      by (rule run_complete [OF hs])
  qed
  have p8: "list_all (\<lambda>i. 6 \<le> count_list schedule i) [0..<length dls]
      \<longrightarrow> snd (run e now tn (d, map Arrived dls) schedule) = replicate (length dls) Finished"
    using run_finishes by blast
  show ?thesis
    by (rule conjI [OF p1 conjI [OF p2 conjI [OF p3 conjI [OF p4 conjI [OF p5
          conjI [OF p6 conjI [OF p7 p8]]]]]]])
qed


theorem paid_once_credited_once_witness:
  "deliveries gateway 5 ''T1'' (deliver gateway 5 ''T1'' shop2 (Notify paidCallback))
       [Notify paidCallback, Return paidCallback]
     = deliver gateway 5 ''T1'' shop2 (Notify paidCallback)
   \<and> (\<exists>r. orderByTradeNo shop2 ''T1'' = Some r \<and> status r = 0)
   \<and> paidAndCredited shop2
        (deliveries gateway 5 ''T1'' shop2 [Return paidCallback, Notify paidCallback])
        ''T1'' (hd (orders shop2))
   \<and> deliveries gateway 5 ''T1'' shop2 [Return paidCallback, Notify paidCallback]
     = deliver gateway 5 ''T1'' shop2 (Return paidCallback)
   \<and> creditBalance (deliver gateway 5 ''T1'' shop2 (Notify paidCallback))
        (hd (orders shop2)) 97
     = deliver gateway 5 ''T1'' shop2 (Notify paidCallback)
   \<and> run gateway 5 ''T1'' (shop2, [Arrived (Notify paidCallback)]) [0, 0, 0, 0, 0, 0]
     = (deliver gateway 5 ''T1'' shop2 (Notify paidCallback), [Finished])
   \<and> paidAndCredited shop2
        (fst (run gateway 5 ''T1''
                (shop2, map Arrived [Notify paidCallback, Return paidCallback])
                [0, 1, 0, 1, 0, 1, 0, 1, 0, 1, 0, 1]))
        ''T1'' (hd (orders shop2))
   \<and> paidAndCredited shop2
        (fst (run gateway 5 ''T1''
                (shop2, map Arrived [Notify paidCallback, Return paidCallback])
                ([0, 1, 0, 1, 0, 0, 0, 0] @ [1, 1, 1, 1])))
        ''T1'' (hd (orders shop2))
   \<and> map_option status
        (orderByTradeNo
           (fst (run gateway 5 ''T1''
                   (shop2, map Arrived [Notify paidCallback, Return paidCallback])
                   ([0, 1, 0] @ [1, 1, 0, 0, 0, 1, 1, 1])))
           ''T1'')
     = Some 1
   \<and> balancesOf
        (fst (run gateway 5 ''T1''
                (shop2, map Arrived [Notify paidCallback, Return paidCallback])
                [0, 1, 0, 1, 0, 1, 0, 1, 0, 1, 0, 1]))
        7
     = [97]
   \<and> paidAndCredited shop2
        (fst (run gateway 5 ''T1''
                (shop2, map Arrived [Notify paidCallback, Return paidCallback])
                [1, 0, 0, 1, 1, 0, 0, 1, 1, 0, 0, 1]))
        ''T1'' (hd (orders shop2))
   \<and> snd (run gateway 5 ''T1''
             (shop2, map Arrived [Notify paidCallback, Return paidCallback])
             [1, 0, 0, 1, 1, 0, 0, 1, 1, 0, 0, 1])
     = replicate (length [Notify paidCallback, Return paidCallback]) Finished"
proof -
  have h1: "orderByTradeNo (deliver gateway 5 ''T1'' shop2 (Notify paidCallback)) ''T1''
              = Some (hd (orders (deliver gateway 5 ''T1'' shop2 (Notify paidCallback))))
            \<and> status (hd (orders (deliver gateway 5 ''T1'' shop2 (Notify paidCallback)))) \<noteq> 0"
    by code_simp
  have h2: "deliver gateway 5 ''T1'' shop2 (Notify paidCallback) \<noteq> shop2"
    by code_simp
  have h3: "pendingOrder shop2 ''T1'' (hd (orders shop2)) \<and> creditDue shop2 (hd (orders shop2))"
    by code_simp
  have h3v: "verifiedCallback gateway shop2 ''T1'' (Return paidCallback) \<noteq> None"
    by code_simp
  have h4: "filter (\<lambda>r. o_id r = o_id (hd (orders shop2)))
              (orders (deliver gateway 5 ''T1'' shop2 (Notify paidCallback)))
            = hd (orders (deliver gateway 5 ''T1'' shop2 (Notify paidCallback))) # []
            \<and> balance_added (hd (orders (deliver gateway 5 ''T1'' shop2 (Notify paidCallback))))"
    by code_simp
  have h6: "pendingOrder shop2 ''T1'' (hd (orders shop2))"
    using h3 by simp
  have n6: "merchants (fst (run gateway 5 ''T1''
                (shop2, map Arrived [Notify paidCallback, Return paidCallback])
                [0, 1, 0, 1, 0, 1, 0, 1, 0, 1, 0, 1])) \<noteq> merchants shop2"
    by code_simp
  have h7a: "paidAndCredited shop2
        (fst (run gateway 5 ''T1''
                (shop2, map Arrived [Notify paidCallback, Return paidCallback])
                [0, 1, 0, 1, 0, 0, 0, 0]))
        ''T1'' (hd (orders shop2))"
    by code_simp
  have h7b: "map_option status
        (orderByTradeNo
           (fst (run gateway 5 ''T1''
                   (shop2, map Arrived [Notify paidCallback, Return paidCallback])
                   [0, 1, 0]))
           ''T1'')
     = Some 1"
    by code_simp
  have c10: "balancesOf
        (fst (run gateway 5 ''T1''
                (shop2, map Arrived [Notify paidCallback, Return paidCallback])
                [0, 1, 0, 1, 0, 1, 0, 1, 0, 1, 0, 1]))
        7
     = [97]"
    by code_simp
  note A = paid_once_credited_once
             [where d = "deliver gateway 5 ''T1'' shop2 (Notify paidCallback)"
                and tn = "''T1''" and e = gateway and now = 5
                and ord = "hd (orders (deliver gateway 5 ''T1'' shop2 (Notify paidCallback)))"
                and dls = "[Notify paidCallback, Return paidCallback]"]
  note B = paid_once_credited_once
             [where d = shop2 and tn = "''T1''" and e = gateway and now = 5
                and dl = "Notify paidCallback"]
  note C = paid_once_credited_once
             [where d = shop2 and tn = "''T1''" and e = gateway and now = 5
                and ord = "hd (orders shop2)" and dl = "Return paidCallback"
                and dls = "[Notify paidCallback]"]
  note D = paid_once_credited_once
             [where d = "deliver gateway 5 ''T1'' shop2 (Notify paidCallback)"
                and ord = "hd (orders shop2)" and e = gateway and now = 5 and s = 97
                and oc = "hd (orders (deliver gateway 5 ''T1'' shop2 (Notify paidCallback)))"
                and rest = "[]"]
  note E = paid_once_credited_once
             [where d = shop2 and tn = "''T1''" and e = gateway and now = 5
                and ord = "hd (orders shop2)"
                and dls = "[Notify paidCallback, Return paidCallback]"
                and schedule = "[0, 1, 0, 1, 0, 1, 0, 1, 0, 1, 0, 1]"]
  note F = paid_once_credited_once
             [where d = shop2 and tn = "''T1''" and e = gateway and now = 5
                and ord = "hd (orders shop2)"
                and dls = "[Notify paidCallback, Return paidCallback]"
                and schedule = "[0, 1, 0, 1, 0, 0, 0, 0]" and later = "[1, 1, 1, 1]"]
  note G = paid_once_credited_once
             [where d = shop2 and tn = "''T1''" and e = gateway and now = 5
                and ord = "hd (orders shop2)"
                and dls = "[Notify paidCallback, Return paidCallback]"
                and schedule = "[0, 1, 0]" and later = "[1, 1, 0, 0, 0, 1, 1, 1]"]
  have c1: "deliveries gateway 5 ''T1'' (deliver gateway 5 ''T1'' shop2 (Notify paidCallback))
       [Notify paidCallback, Return paidCallback]
     = deliver gateway 5 ''T1'' shop2 (Notify paidCallback)"
    by (rule A [THEN conjunct1, THEN mp, OF h1])
  have c2: "\<exists>r. orderByTradeNo shop2 ''T1'' = Some r \<and> status r = 0"
    by (rule B [THEN conjunct2, THEN conjunct1, THEN mp, OF h2])
  note C3 = C [THEN conjunct2, THEN conjunct2, THEN conjunct1, THEN mp, OF h3,
               THEN conjunct2, THEN mp, OF h3v]
  note c3 = C3 [THEN conjunct1]
  note c4 = C3 [THEN conjunct2]
  note c5 = D [THEN conjunct2, THEN conjunct2, THEN conjunct2, THEN conjunct1, THEN mp, OF h4,
               THEN conjunct1]
  note c6 = B [THEN conjunct2, THEN conjunct2, THEN conjunct2, THEN conjunct2, THEN conjunct1]
  note E6 = E [THEN conjunct2, THEN conjunct2, THEN conjunct2, THEN conjunct2, THEN conjunct2,
               THEN conjunct1, THEN mp, OF h6, THEN conjunct1]
  have c7: "paidAndCredited shop2
        (fst (run gateway 5 ''T1''
                (shop2, map Arrived [Notify paidCallback, Return paidCallback])
                [0, 1, 0, 1, 0, 1, 0, 1, 0, 1, 0, 1]))
        ''T1'' (hd (orders shop2))"
    using E6 n6 by blast
  note c8 = F [THEN conjunct2, THEN conjunct2, THEN conjunct2, THEN conjunct2, THEN conjunct2,
               THEN conjunct1, THEN mp, OF h6, THEN conjunct2, THEN conjunct1, THEN mp, OF h7a]
  note c9 = G [THEN conjunct2, THEN conjunct2, THEN conjunct2, THEN conjunct2, THEN conjunct2,
               THEN conjunct1, THEN mp, OF h6, THEN conjunct2, THEN conjunct2, THEN mp, OF h7b]
  note H = paid_once_credited_once
             [where d = shop2 and tn = "''T1''" and e = gateway and now = 5
                and ord = "hd (orders shop2)"
                and dls = "[Notify paidCallback, Return paidCallback]"
                and schedule = "[1, 0, 0, 1, 1, 0, 0, 1, 1, 0, 0, 1]"]
  have h8: "list_all (\<lambda>i. 6 \<le> count_list [1, 0, 0, 1, 1, 0, 0, 1, 1, 0, 0, 1] i)
              [0..<length [Notify paidCallback, Return paidCallback]]"
    by code_simp
  note c12 = H [THEN conjunct2, THEN conjunct2, THEN conjunct2, THEN conjunct2, THEN conjunct2,
                THEN conjunct2, THEN conjunct2, THEN mp, OF h8]
  have h7: "pendingOrder shop2 ''T1'' (hd (orders shop2)) \<and> creditDue shop2 (hd (orders shop2))
        \<and> snd (run gateway 5 ''T1''
                 (shop2, map Arrived [Notify paidCallback, Return paidCallback])
                 [1, 0, 0, 1, 1, 0, 0, 1, 1, 0, 0, 1])
          = replicate (length [Notify paidCallback, Return paidCallback]) Finished"
    using h3 c12 by blast
  have n7: "merchants (fst (run gateway 5 ''T1''
                (shop2, map Arrived [Notify paidCallback, Return paidCallback])
                [1, 0, 0, 1, 1, 0, 0, 1, 1, 0, 0, 1])) \<noteq> merchants shop2"
    by code_simp
  note H7 = H [THEN conjunct2, THEN conjunct2, THEN conjunct2, THEN conjunct2, THEN conjunct2,
               THEN conjunct2, THEN conjunct1, THEN mp, OF h7]
  have c11: "paidAndCredited shop2
        (fst (run gateway 5 ''T1''
                (shop2, map Arrived [Notify paidCallback, Return paidCallback])
                [1, 0, 0, 1, 1, 0, 0, 1, 1, 0, 0, 1]))
        ''T1'' (hd (orders shop2))"
    using H7 n7 by blast
  show ?thesis
    by (intro conjI) (rule c1, rule c2, rule c3, rule c4, rule c5, rule c6, rule c7, rule c8,
          rule c9, rule c10, rule c11, rule c12)
qed

end
